theory Spec2Isabelle
  imports Complex_Main
begin

section \<open>LumiSpy axis utilities (\<^verbatim>\<open>lumispy/utils/axes.py\<close>)\<close>

text \<open>
  The module converts signal axes between wavelength and energy and joins overlapping
  spectra. Its numbers are NumPy \<^verbatim>\<open>float64\<close> values; this development reads them
  as real numbers (no rounding, no overflow, no infinities), with one extra value \<open>NaN\<close>
  where the source itself creates or tests for it. Exceptions are values of a sum type.
\<close>

subsection \<open>Exceptions\<close>

text \<open>
  The Python exception classes the module and the libraries below it raise, each with its
  message. The three \<^verbatim>\<open>raise\<close> statements of the source are
  \<^verbatim>\<open>AttributeError('Signal unit is already eV.')\<close>,
  \<^verbatim>\<open>ValueError("Signal axes not overlapping")\<close> and
  \<^verbatim>\<open>ValueError("`r` is too large")\<close>.
\<close>

datatype error = ValueError string | AttributeError string | IndexError string | TraitError string

definition UnitError :: error where
  "UnitError = AttributeError ''Signal unit is already eV.''"

definition OverlapError :: error where
  "OverlapError = ValueError ''Signal axes not overlapping''"

definition RangeError :: error where
  "RangeError = ValueError ''`r` is too large''"

subsection \<open>Physical constants\<close>

text \<open>
  \<^verbatim>\<open>scipy.constants\<close> \<open>h\<close>, \<open>c\<close> and \<open>e\<close>: the exact values of the 2019
  redefinition of the SI (CODATA 2018), Planck's constant in J s, the speed of light in
  m/s and the elementary charge in C.
\<close>

definition c_h :: real where
  "c_h = 662607015 / 10 ^ 42"

definition c_c :: real where
  "c_c = 299792458"

definition c_e :: real where
  "c_e = 1602176634 / 10 ^ 28"

subsection \<open>Refractive index and scalar conversions\<close>

text \<open>
  \<^verbatim>\<open>_n_air(wl)\<close>: the dispersion formula of Peck and Reeder for the wavelength in nm.
  The source divides by \<open>wl\<^sup>2\<close> and by the two differences; on NumPy arrays a zero
  divisor gives an infinity and no exception, while HOL's division gives 0 there, so the
  model agrees with the source only away from \<open>wl = 0\<close> and from the two poles (near 87 nm
  and 159 nm). Every statement below keeps to wavelengths of at least 185 nm.
\<close>

definition n_air :: "real \<Rightarrow> real" where
  "n_air wl0 =
     (let wl = wl0 / 1000
      in 1 + 806051 / 10 ^ 10 + (2480990 / 10 ^ 8) / (132274 / 10 ^ 3 - 1 / wl ^ 2)
           + (174557 / 10 ^ 9) / (3932957 / 10 ^ 5 - 1 / wl ^ 2))"

definition nm2eV :: "real \<Rightarrow> real" where
  "nm2eV x = 10 ^ 9 * c_h * c_c / (c_e * n_air x * x)"

definition eV2nm :: "real \<Rightarrow> real" where
  "eV2nm x =
     (let wl = (12395 / 10) / x
      in 10 ^ 9 * c_h * c_c / (c_e * n_air wl * x))"

subsection \<open>Axes\<close>

text \<open>
  The axis objects of the host library (HyperSpy), reduced to the attributes the module
  reads and writes. A \<open>UniformDataAxis\<close> is given by offset, scale and size, and its
  \<^verbatim>\<open>.axis\<close> array is \<open>offset + scale * arange(size)\<close>, recomputed whenever one of
  the three is assigned; a \<open>DataAxis\<close> holds its array. A functional axis is taken as
  already converted to a \<open>DataAxis\<close> (\<^verbatim>\<open>convert_to_non_uniform_axis\<close>).
\<close>

datatype data_axis =
    UniformDataAxis (name: string) (units: string) (navigate: bool)
      (offset: real) (scale: real) (size: int)
  | DataAxis (name: string) (units: string) (navigate: bool) (axis_array: "real list")

fun axis :: "data_axis \<Rightarrow> real list" where
  "axis (UniformDataAxis nm u nav off sc sz) = map (\<lambda>i. off + sc * real i) [0..<nat sz]"
| "axis (DataAxis nm u nav vs) = vs"

fun is_uniform :: "data_axis \<Rightarrow> bool" where
  "is_uniform (UniformDataAxis nm u nav off sc sz) = True"
| "is_uniform (DataAxis nm u nav vs) = False"

text \<open>The unit string \<^verbatim>\<open>'\<mu>m'\<close> of the source: the code point U+00B5, then \<open>m\<close>.\<close>

definition micro_m :: string where
  "micro_m = [CHR 0xB5, CHR ''m'']"

subsection \<open>Axis conversion\<close>

text \<open>
  The constructor \<^verbatim>\<open>DataAxis(axis=..., name=..., units=..., navigate=...)\<close> of the host
  library. Its \<^verbatim>\<open>update_axis\<close> takes the steps \<^verbatim>\<open>axis[1:] - axis[:-1]\<close> of an array
  with more than one sample and raises
  \<^verbatim>\<open>ValueError('The non-uniform axis needs to be ordered.')\<close> unless all of them are
  positive or all of them are negative.
\<close>

definition steps :: "real list \<Rightarrow> real list" where
  "steps xs = map2 (\<lambda>b a. b - a) (tl xs) (butlast xs)"

definition is_ordered :: "real list \<Rightarrow> bool" where
  "is_ordered xs \<longleftrightarrow> list_all (\<lambda>d. 0 < d) (steps xs) \<or> list_all (\<lambda>d. d < 0) (steps xs)"

definition new_DataAxis :: "real list \<Rightarrow> string \<Rightarrow> string \<Rightarrow> bool \<Rightarrow> error + data_axis" where
  "new_DataAxis vs nm u nav =
     (if 1 < length vs \<and> \<not> is_ordered vs
      then Inl (ValueError ''The non-uniform axis needs to be ordered.'')
      else Inr (DataAxis nm u nav vs))"

text \<open>
  \<^verbatim>\<open>axis2eV(ax0)\<close>: the energy axis (the converted samples in reverse order) and the
  intensity correction factor. The function raises in two places: its own test of the
  unit, and the constructor of the new axis.
\<close>

definition axis2eV :: "data_axis \<Rightarrow> error + (data_axis \<times> real)" where
  "axis2eV ax0 =
     (if units ax0 = ''eV'' then Inl (AttributeError ''Signal unit is already eV.'')
      else
        let (evaxis, factor) =
              (if units ax0 = micro_m
               then (rev (map nm2eV (map (\<lambda>x. 1000 * x) (axis ax0))), 10 ^ 3)
               else (rev (map nm2eV (axis ax0)), 10 ^ 6))
        in (case new_DataAxis evaxis ''Energy'' ''eV'' False of
              Inl err \<Rightarrow> Inl err
            | Inr ev \<Rightarrow> Inr (ev, factor)))"

text \<open>
  NumPy's elementwise operations on two one-dimensional arrays: arrays of equal length
  are combined sample by sample, an array of length 1 is broadcast, and any other pair of
  lengths raises \<^verbatim>\<open>ValueError\<close>.
\<close>

definition broadcast2 :: "('a \<Rightarrow> 'b \<Rightarrow> 'c) \<Rightarrow> 'a list \<Rightarrow> 'b list \<Rightarrow> error + 'c list" where
  "broadcast2 f xs ys =
     (if length xs = length ys then Inr (map2 f xs ys)
      else if length xs = 1 then Inr (map (f (hd xs)) ys)
      else if length ys = 1 then Inr (map (\<lambda>x. f x (hd ys)) xs)
      else Inl (ValueError ''operands could not be broadcast together''))"

text \<open>
  \<^verbatim>\<open>data2eV(data, factor, ax0, evaxis)\<close> on one-dimensional arrays:
  \<^verbatim>\<open>data * factor * c.h * c.c / (c.e * _n_air(ax0[::-1]) * evaxis**2)\<close>.
\<close>

definition data2eV :: "real list \<Rightarrow> real \<Rightarrow> real list \<Rightarrow> real list \<Rightarrow> error + real list" where
  "data2eV data factor ax0 evaxis =
     (case broadcast2 (\<lambda>n ev. c_e * n * ev ^ 2) (map n_air (rev ax0)) evaxis of
        Inl err \<Rightarrow> Inl err
      | Inr den \<Rightarrow> broadcast2 (\<lambda>d q. d * factor * c_h * c_c / q) data den)"

subsection \<open>Arrays\<close>

text \<open>
  A \<^verbatim>\<open>float64\<close> sample of signal data: a real number or \<open>NaN\<close>. Arithmetic with \<open>NaN\<close>
  gives \<open>NaN\<close>.
\<close>

datatype npfloat = Num real | NaN

fun lift2 :: "(real \<Rightarrow> real \<Rightarrow> real) \<Rightarrow> npfloat \<Rightarrow> npfloat \<Rightarrow> npfloat" where
  "lift2 f (Num a) (Num b) = Num (f a b)"
| "lift2 f _ _ = NaN"

text \<open>
  Python's slices \<^verbatim>\<open>xs[a:b]\<close>, \<^verbatim>\<open>xs[:b]\<close> and \<^verbatim>\<open>xs[a:]\<close> with integer bounds: a
  negative bound counts from the end, and every bound is clipped to the array.
\<close>

definition slice_bound :: "nat \<Rightarrow> int \<Rightarrow> nat" where
  "slice_bound n i = (if i < 0 then nat (int n + i) else min n (nat i))"

definition slice :: "'a list \<Rightarrow> int \<Rightarrow> int \<Rightarrow> 'a list" where
  "slice xs a b =
     (let lo = slice_bound (length xs) a; hi = slice_bound (length xs) b
      in take (hi - lo) (drop lo xs))"

definition slice_to :: "'a list \<Rightarrow> int \<Rightarrow> 'a list" where
  "slice_to xs b = take (slice_bound (length xs) b) xs"

definition slice_from :: "'a list \<Rightarrow> int \<Rightarrow> 'a list" where
  "slice_from xs a = drop (slice_bound (length xs) a) xs"

text \<open>Python's \<^verbatim>\<open>xs[i]\<close>: a negative index counts from the end, one out of range raises.\<close>

definition pyindex :: "'a list \<Rightarrow> int \<Rightarrow> error + 'a" where
  "pyindex xs i =
     (if i < - int (length xs) \<or> int (length xs) \<le> i
      then Inl (IndexError ''index out of bounds'')
      else Inr (xs ! (if i < 0 then nat (int (length xs) + i) else nat i)))"

text \<open>\<^verbatim>\<open>a.max()\<close> and \<^verbatim>\<open>a.min()\<close>: NumPy raises on an empty array.\<close>

definition amax :: "real list \<Rightarrow> error + real" where
  "amax xs =
     (case xs of
        [] \<Rightarrow> Inl (ValueError ''zero-size array to reduction operation maximum which has no identity'')
      | x # rest \<Rightarrow> Inr (fold max rest x))"

definition amin :: "real list \<Rightarrow> error + real" where
  "amin xs =
     (case xs of
        [] \<Rightarrow> Inl (ValueError ''zero-size array to reduction operation minimum which has no identity'')
      | x # rest \<Rightarrow> Inr (fold min rest x))"

text \<open>Running a list of computations, stopping at the first exception.\<close>

fun sequence :: "(error + 'a) list \<Rightarrow> error + 'a list" where
  "sequence [] = Inr []"
| "sequence (Inl err # ms) = Inl err"
| "sequence (Inr x # ms) = (case sequence ms of Inl err \<Rightarrow> Inl err | Inr xs \<Rightarrow> Inr (x # xs))"

subsection \<open>Spectra\<close>

text \<open>
  A \<^verbatim>\<open>Signal1D\<close>: its signal axis and its data, one row of samples for each navigation
  position (a spectrum without navigation axes has one row). Metadata is carried through
  untouched and not modelled. \<^verbatim>\<open>S.isig[a:b].data\<close> slices every row.
\<close>

record spectrum =
  signal_axis :: data_axis
  data :: "npfloat list list"

definition isig :: "spectrum \<Rightarrow> int \<Rightarrow> int \<Rightarrow> npfloat list list" where
  "isig S a b = map (\<lambda>row. slice row a b) (data S)"

definition isig_to :: "spectrum \<Rightarrow> int \<Rightarrow> npfloat list list" where
  "isig_to S b = map (\<lambda>row. slice_to row b) (data S)"

definition isig_from :: "spectrum \<Rightarrow> int \<Rightarrow> npfloat list list" where
  "isig_from S a = map (\<lambda>row. slice_from row a) (data S)"

subsection \<open>Host library: nearest index\<close>

text \<open>
  \<^verbatim>\<open>np.abs(a - v).argmin()\<close>: the first index at which the array is closest to \<open>v\<close>.
\<close>

fun argmin :: "real list \<Rightarrow> nat" where
  "argmin [] = 0"
| "argmin [x] = 0"
| "argmin (x # y # ys) = (let j = argmin (y # ys) in if x \<le> (y # ys) ! j then 0 else Suc j)"

definition closest_index :: "real list \<Rightarrow> real \<Rightarrow> nat" where
  "closest_index xs v = argmin (map (\<lambda>x. \<bar>x - v\<bar>) xs)"

text \<open>
  Modelled from the spec: \<^verbatim>\<open>axis.value2index(value)\<close> of the host library, of which the
  repository holds only calls. The spec names it the value to nearest-index lookup of an
  axis; here it is the first index of a closest sample, and, as the host library
  documents, a value outside the limits of the axis raises \<^verbatim>\<open>ValueError\<close>.
\<close>

definition value2index :: "data_axis \<Rightarrow> real \<Rightarrow> error + nat" where
  "value2index ax v =
     (case amin (axis ax) of
        Inl err \<Rightarrow> Inl err
      | Inr low \<Rightarrow>
          (case amax (axis ax) of
             Inl err \<Rightarrow> Inl err
           | Inr high \<Rightarrow>
               if v < low \<or> high < v then Inl (ValueError ''The value is out of the axis limits'')
               else Inr (closest_index (axis ax) v)))"

subsection \<open>Numeric library: the operations on arrays that the join uses\<close>

text \<open>
  \<^verbatim>\<open>np.divide(a, b, out=init, where=b != 0)\<close> with \<open>init\<close> an array of the shape of \<open>b\<close>
  filled with \<open>NaN\<close>: a sample of the quotient is written where the sample of \<open>b\<close> is not
  zero, and the \<open>NaN\<close> of \<open>init\<close> stays elsewhere. The result has the shape of \<open>b\<close>; \<open>a\<close>
  must have that shape or length 1 along an axis, or NumPy raises.
\<close>

definition divide_sample :: "npfloat \<Rightarrow> npfloat \<Rightarrow> npfloat" where
  "divide_sample a b = (if b \<noteq> Num 0 then lift2 (\<lambda>x y. x / y) a b else NaN)"

definition divide_row :: "npfloat list \<Rightarrow> npfloat list \<Rightarrow> error + npfloat list" where
  "divide_row a b =
     (if length a = length b then Inr (map2 divide_sample a b)
      else if length a = 1 then Inr (map (divide_sample (hd a)) b)
      else Inl (ValueError ''operands could not be broadcast together''))"

definition divide_where :: "npfloat list list \<Rightarrow> npfloat list list \<Rightarrow> error + npfloat list list" where
  "divide_where a b =
     (if length a = length b then sequence (map2 divide_row a b)
      else if length a = 1 then sequence (map (divide_row (hd a)) b)
      else Inl (ValueError ''operands could not be broadcast together''))"

text \<open>
  \<^verbatim>\<open>np.nanmean(row)\<close>: the mean of the samples that are not \<open>NaN\<close>, and \<open>NaN\<close> (with a
  warning) when there is none.
\<close>

fun numbers :: "npfloat list \<Rightarrow> real list" where
  "numbers [] = []"
| "numbers (Num x # xs) = x # numbers xs"
| "numbers (NaN # xs) = numbers xs"

definition nanmean :: "npfloat list \<Rightarrow> npfloat" where
  "nanmean row =
     (let xs = numbers row
      in if xs = [] then NaN else Num (sum_list xs / real (length xs)))"

text \<open>
  \<^verbatim>\<open>np.hstack((a, b))\<close> joins the rows of two arrays with the same number of rows;
  \<^verbatim>\<open>np.mean([a, b], axis=0)\<close> averages two arrays of one shape sample by sample. Both
  raise on other shapes.
\<close>

definition hstack :: "'a list list \<Rightarrow> 'a list list \<Rightarrow> error + 'a list list" where
  "hstack a b =
     (if length a = length b then Inr (map2 (@) a b)
      else Inl (ValueError ''all the input array dimensions except for the concatenation axis must match exactly''))"

definition mean2 :: "npfloat list list \<Rightarrow> npfloat list list \<Rightarrow> error + npfloat list list" where
  "mean2 a b =
     (if map length a = map length b
      then Inr (map2 (\<lambda>ra rb. map2 (lift2 (\<lambda>x y. (x + y) / 2)) ra rb) a b)
      else Inl (ValueError ''setting an array element with a sequence: inhomogeneous shape''))"

text \<open>
  \<^verbatim>\<open>scipy.interpolate.interp1d(x, y, kind=kind)\<close> for ascending \<open>x\<close> without repeated
  values, with its defaults (\<^verbatim>\<open>bounds_error=True\<close>). The kinds modelled are the
  piecewise linear ones, \<^verbatim>\<open>'slinear'\<close> and \<^verbatim>\<open>'linear'\<close>, and \<^verbatim>\<open>'previous'\<close>; the
  higher-order splines of SciPy are not. The constructor raises when \<open>x\<close> and the rows of
  \<open>y\<close> differ in length or are too short for the kind; a call raises when a new point lies
  outside the range of \<open>x\<close>.
\<close>

fun interp_linear :: "real list \<Rightarrow> npfloat list \<Rightarrow> real \<Rightarrow> npfloat" where
  "interp_linear (x0 # x1 # xs) (y0 # y1 # ys) t =
     (if t < x1 \<or> xs = []
      then lift2 (\<lambda>a b. ((x1 - t) * a + (t - x0) * b) / (x1 - x0)) y0 y1
      else interp_linear (x1 # xs) (y1 # ys) t)"
| "interp_linear _ _ t = NaN"

fun interp_previous :: "real list \<Rightarrow> npfloat list \<Rightarrow> real \<Rightarrow> npfloat" where
  "interp_previous (x0 # x1 # xs) (y0 # y1 # ys) t =
     (if t < x1 then y0 else interp_previous (x1 # xs) (y1 # ys) t)"
| "interp_previous [x0] [y0] t = y0"
| "interp_previous _ _ t = NaN"

definition interp1d :: "real list \<Rightarrow> npfloat list list \<Rightarrow> string \<Rightarrow> error + unit" where
  "interp1d x y kind =
     (if kind \<notin> {''slinear'', ''linear'', ''previous''}
      then Inl (ValueError ''interpolation kind outside the model'')
      else if \<exists>row\<in>set y. length row \<noteq> length x
      then Inl (ValueError ''x and y arrays must be equal in length along interpolation axis.'')
      else if length x < (if kind = ''slinear'' then 2 else 1)
      then Inl (ValueError ''x and y arrays must have at least 2 entries'')
      else Inr ())"

definition interp_call :: "real list \<Rightarrow> npfloat list list \<Rightarrow> string \<Rightarrow> real list \<Rightarrow> error + npfloat list list" where
  "interp_call x y kind x_new =
     (if \<exists>t\<in>set x_new. t < hd x
      then Inl (ValueError ''A value in x_new is below the interpolation range.'')
      else if \<exists>t\<in>set x_new. last x < t
      then Inl (ValueError ''A value in x_new is above the interpolation range.'')
      else Inr (map (\<lambda>row. map (if kind = ''previous'' then interp_previous x row else interp_linear x row) x_new) y))"

subsection \<open>Joining spectra\<close>

text \<open>
  \<^verbatim>\<open>join_spectra(S, r=50, average=False, kind='slinear')\<close>. The function works on deep
  copies of the spectra it is given; here spectra are values, so a copy is the value
  itself.

  The test that the spectra overlap (the first loop): every adjacent pair in turn.
\<close>

fun overlap_check :: "spectrum list \<Rightarrow> error + unit" where
  "overlap_check (Sa # Sb # rest) =
     (case amax (axis (signal_axis Sa)) of
        Inl err \<Rightarrow> Inl err
      | Inr hi \<Rightarrow>
          (case amin (axis (signal_axis Sb)) of
             Inl err \<Rightarrow> Inl err
           | Inr lo \<Rightarrow>
               if hi < lo then Inl (ValueError ''Signal axes not overlapping'')
               else overlap_check (Sb # rest)))"
| "overlap_check _ = Inr ()"

text \<open>
  The scaling factor, one for each row of the second spectrum:
  \<^verbatim>\<open>np.nanmean(np.divide(S1.isig[ind1-r:ind1+r].data, S2.isig[ind2-r:ind2+r].data,
  out=init, where=S2.isig[ind2-r:ind2+r].data != 0), axis=-1)\<close>.
\<close>

definition scaling_factor :: "spectrum \<Rightarrow> spectrum \<Rightarrow> int \<Rightarrow> int \<Rightarrow> int \<Rightarrow> error + npfloat list" where
  "scaling_factor S1 S2 ind1 ind2 r =
     (case divide_where (isig S1 (ind1 - r) (ind1 + r)) (isig S2 (ind2 - r) (ind2 + r)) of
        Inl err \<Rightarrow> Inl err
      | Inr ratio \<Rightarrow> Inr (map nanmean ratio))"

text \<open>\<^verbatim>\<open>(S2.data.T * factor).T\<close>: every row multiplied by its factor.\<close>

definition scale_rows :: "npfloat list list \<Rightarrow> npfloat list \<Rightarrow> npfloat list list" where
  "scale_rows rows factor = map2 (\<lambda>row f. map (\<lambda>x. lift2 (*) x f) row) rows factor"

text \<open>
  The two assignments to the axis of the first spectrum: \<^verbatim>\<open>axis.size = ...\<close> on a
  uniform axis, whose array follows, and \<^verbatim>\<open>axis.axis = ...\<close> on a non-uniform one.
\<close>

fun set_size :: "data_axis \<Rightarrow> int \<Rightarrow> data_axis" where
  "set_size (UniformDataAxis nm u nav off sc sz) n = UniformDataAxis nm u nav off sc n"
| "set_size (DataAxis nm u nav vs) n = DataAxis nm u nav vs"

fun set_axis_array :: "data_axis \<Rightarrow> real list \<Rightarrow> data_axis" where
  "set_axis_array (DataAxis nm u nav vs) new = DataAxis nm u nav new"
| "set_axis_array (UniformDataAxis nm u nav off sc sz) new = DataAxis nm u nav new"

text \<open>
  The branch for a uniform axis (source lines 157 to 173), in three parts. First the new
  size of the axis,
  \<^verbatim>\<open>axis.axis[:ind1].size + np.floor((axis2.axis[-1] - axis.axis[ind1])/axis.scale)\<close>.
  It is a float in the source; the host library converts it to an integer and fails on an
  infinity or a \<open>NaN\<close>, which a scale of zero produces.
\<close>

definition uniform_size :: "spectrum \<Rightarrow> spectrum \<Rightarrow> nat \<Rightarrow> error + int" where
  "uniform_size S1 S2 ind1 =
     (case pyindex (axis (signal_axis S2)) (- 1) of
        Inl err \<Rightarrow> Inl err
      | Inr last2 \<Rightarrow>
          if scale (signal_axis S1) = 0
          then Inl (TraitError ''the size of an axis must be an integer'')
          else Inr (int (length (slice_to (axis (signal_axis S1)) (int ind1)))
                    + \<lfloor>(last2 - axis (signal_axis S1) ! ind1) / scale (signal_axis S1)\<rfloor>))"

text \<open>
  Then the data for \<^verbatim>\<open>average=True\<close>, with \<open>new_axis\<close> the array of the axis after
  the assignment of its size: the second spectrum is interpolated from the index nearest
  to \<^verbatim>\<open>axis.axis[ind1-r]\<close> on, the band of \<open>2r - 1\<close> samples around the centre is the
  mean of both spectra, and the three pieces are stacked. Both calls of
  \<^verbatim>\<open>interp1d\<close> in the source pass \<^verbatim>\<open>kind='slinear'\<close>.
\<close>

definition average_data :: "spectrum \<Rightarrow> spectrum \<Rightarrow> real list \<Rightarrow> nat \<Rightarrow> int \<Rightarrow> error + npfloat list list" where
  "average_data S1 S2 new_axis ind1 r =
     (case pyindex new_axis (int ind1 - r) of
        Inl err \<Rightarrow> Inl err
      | Inr v \<Rightarrow>
     (case value2index (signal_axis S2) v of
        Inl err \<Rightarrow> Inl err
      | Inr ind2r \<Rightarrow>
     (case interp1d (slice_from (axis (signal_axis S2)) (int ind2r)) (isig_from S2 (int ind2r)) ''slinear'' of
        Inl err \<Rightarrow> Inl err
      | Inr f \<Rightarrow>
     (case interp_call (slice_from (axis (signal_axis S2)) (int ind2r)) (isig_from S2 (int ind2r)) ''slinear''
             (slice new_axis (int ind1 - r + 1) (int ind1 + r)) of
        Inl err \<Rightarrow> Inl err
      | Inr band2 \<Rightarrow>
     (case mean2 (isig S1 (int ind1 - r + 1) (int ind1 + r)) band2 of
        Inl err \<Rightarrow> Inl err
      | Inr band \<Rightarrow>
     (case interp_call (slice_from (axis (signal_axis S2)) (int ind2r)) (isig_from S2 (int ind2r)) ''slinear''
             (slice_from new_axis (int ind1 + r)) of
        Inl err \<Rightarrow> Inl err
      | Inr rest \<Rightarrow>
     (case hstack (isig_to S1 (int ind1 - r + 1)) band of
        Inl err \<Rightarrow> Inl err
      | Inr left \<Rightarrow> hstack left rest)))))))"

text \<open>
  And the data for \<^verbatim>\<open>average=False\<close>: the first spectrum up to the centre, then the
  second one interpolated at the points of the new axis after it.
\<close>

definition center_data :: "spectrum \<Rightarrow> spectrum \<Rightarrow> real list \<Rightarrow> nat \<Rightarrow> nat \<Rightarrow> error + npfloat list list" where
  "center_data S1 S2 new_axis ind1 ind2 =
     (case interp1d (slice_from (axis (signal_axis S2)) (int ind2)) (isig_from S2 (int ind2)) ''slinear'' of
        Inl err \<Rightarrow> Inl err
      | Inr f \<Rightarrow>
     (case interp_call (slice_from (axis (signal_axis S2)) (int ind2)) (isig_from S2 (int ind2)) ''slinear''
             (slice_from new_axis (int ind1 + 1)) of
        Inl err \<Rightarrow> Inl err
      | Inr rest \<Rightarrow> hstack (isig_to S1 (int ind1 + 1)) rest))"

definition join_uniform :: "spectrum \<Rightarrow> spectrum \<Rightarrow> nat \<Rightarrow> nat \<Rightarrow> int \<Rightarrow> bool \<Rightarrow> error + spectrum" where
  "join_uniform S1 S2 ind1 ind2 r average =
     (case uniform_size S1 S2 ind1 of
        Inl err \<Rightarrow> Inl err
      | Inr n \<Rightarrow>
          (case (if average then average_data S1 S2 (axis (set_size (signal_axis S1) n)) ind1 r
                 else center_data S1 S2 (axis (set_size (signal_axis S1) n)) ind1 ind2) of
             Inl err \<Rightarrow> Inl err
           | Inr d \<Rightarrow> Inr (S1\<lparr>signal_axis := set_size (signal_axis S1) n, data := d\<rparr>)))"

text \<open>
  The branch for a non-uniform axis (source lines 174 to 189): first the data, then the
  spectrum with the joined axis.
\<close>

definition nonuniform_data :: "spectrum \<Rightarrow> spectrum \<Rightarrow> nat \<Rightarrow> nat \<Rightarrow> int \<Rightarrow> bool \<Rightarrow> error + npfloat list list" where
  "nonuniform_data S1 S2 ind1 ind2 r average =
     (if average then
        (case mean2 (isig S1 (int ind1 - r) (int ind1 + r)) (isig S2 (int ind2 - r) (int ind2 + r)) of
           Inl err \<Rightarrow> Inl err
         | Inr band \<Rightarrow>
        (case hstack (isig_to S1 (int ind1 - r)) band of
           Inl err \<Rightarrow> Inl err
         | Inr left \<Rightarrow> hstack left (isig_from S2 (int ind2 + r))))
      else hstack (isig_to S1 (int ind1)) (isig_from S2 (int ind2)))"

definition join_nonuniform :: "spectrum \<Rightarrow> spectrum \<Rightarrow> nat \<Rightarrow> nat \<Rightarrow> int \<Rightarrow> bool \<Rightarrow> error + spectrum" where
  "join_nonuniform S1 S2 ind1 ind2 r average =
     (case nonuniform_data S1 S2 ind1 ind2 r average of
        Inl err \<Rightarrow> Inl err
      | Inr d \<Rightarrow>
          Inr (S1\<lparr>signal_axis :=
                    set_axis_array (signal_axis S1)
                      (slice_to (axis (signal_axis S1)) (int ind1) @ slice_from (axis (signal_axis S2)) (int ind2)),
                  data := d\<rparr>))"

text \<open>
  One pass of the second loop (source lines 133 to 189): the first spectrum \<open>S1\<close> is
  the result so far, \<open>S2\<close> the copy of the next one. First the centre of the overlap and
  the indices nearest to it in both axes (lines 135 to 144); the result holds \<open>omax\<close> too,
  which the test of \<open>r\<close> reads again.
\<close>

definition overlap_center :: "spectrum \<Rightarrow> spectrum \<Rightarrow> error + (real \<times> nat \<times> nat)" where
  "overlap_center S1 S2 =
     (case amax (axis (signal_axis S1)) of
        Inl err \<Rightarrow> Inl err
      | Inr omax \<Rightarrow>
     (case amin (axis (signal_axis S2)) of
        Inl err \<Rightarrow> Inl err
      | Inr omin \<Rightarrow>
     (case value2index (signal_axis S1) ((omax + omin) / 2) of
        Inl err \<Rightarrow> Inl err
      | Inr ind1 \<Rightarrow>
     (case value2index (signal_axis S2) ((omax + omin) / 2) of
        Inl err \<Rightarrow> Inl err
      | Inr ind2 \<Rightarrow>
          Inr (omax, ind1,
               if axis (signal_axis S1) ! ind1 > axis (signal_axis S2) ! ind2 then ind2 + 1 else ind2)))))"

text \<open>
  Then the test of \<open>r\<close>, the scaling of the second spectrum and the branch on the kind
  of axis. The test \<^verbatim>\<open>not 'axis' in getfullargspec(DataAxis)[0] or axis.is_uniform\<close> asks
  first whether the host library knows non-uniform axes at all; with the two kinds of
  axes of this model it is \<open>is_uniform\<close>. The argument \<open>kind\<close> is in scope and the body
  does not read it.
\<close>

definition join_step :: "spectrum \<Rightarrow> spectrum \<Rightarrow> int \<Rightarrow> bool \<Rightarrow> string \<Rightarrow> error + spectrum" where
  "join_step S1 S2 r average kind =
     (case overlap_center S1 S2 of
        Inl err \<Rightarrow> Inl err
      | Inr (omax, ind1, ind2) \<Rightarrow>
     (case value2index (signal_axis S1) omax of
        Inl err \<Rightarrow> Inl err
      | Inr imax \<Rightarrow>
          if int imax - int ind1 \<le> r then Inl (ValueError ''`r` is too large'')
          else
            (case scaling_factor S1 S2 (int ind1) (int ind2) r of
               Inl err \<Rightarrow> Inl err
             | Inr factor \<Rightarrow>
                 if is_uniform (signal_axis S1)
                 then join_uniform S1 (S2\<lparr>data := scale_rows (data S2) factor\<rparr>) ind1 ind2 r average
                 else join_nonuniform S1 (S2\<lparr>data := scale_rows (data S2) factor\<rparr>) ind1 ind2 r average)))"

text \<open>The second loop and the whole function.\<close>

fun join_loop :: "spectrum \<Rightarrow> spectrum list \<Rightarrow> int \<Rightarrow> bool \<Rightarrow> string \<Rightarrow> error + spectrum" where
  "join_loop S1 [] r average kind = Inr S1"
| "join_loop S1 (S2 # rest) r average kind =
     (case join_step S1 S2 r average kind of
        Inl err \<Rightarrow> Inl err
      | Inr S1' \<Rightarrow> join_loop S1' rest r average kind)"

definition join_spectra :: "spectrum list \<Rightarrow> int \<Rightarrow> bool \<Rightarrow> string \<Rightarrow> error + spectrum" where
  "join_spectra S r average kind =
     (case overlap_check S of
        Inl err \<Rightarrow> Inl err
      | Inr ok \<Rightarrow>
          (case S of
             [] \<Rightarrow> Inl (IndexError ''list index out of range'')
           | S0 # rest \<Rightarrow> join_loop S0 rest r average kind))"

subsection \<open>Objects and deep copies\<close>

text \<open>
  A caller hands \<^verbatim>\<open>join_spectra\<close> a list of references to spectrum objects, and
  the function assigns to attributes (\<^verbatim>\<open>S2.data\<close>, \<^verbatim>\<open>axis.size\<close>,
  \<^verbatim>\<open>axis.axis\<close>, \<^verbatim>\<open>S1.data\<close>). Here a store is the list of all objects and a
  reference is an index into it; \<^verbatim>\<open>deepcopy\<close> adds a new object with the same value.
  The function with the store written out: the overlap test reads the objects of the
  caller; \<open>S1\<close> is a copy of the first one, and every pass copies the next one and
  assigns to the two copies only. The store keeps the new value of \<open>S1\<close> after each
  pass that succeeds; the second copy, which is never read again, and the copies of a
  pass that raises are left as they were made.
\<close>

type_synonym store = "spectrum list"

definition deepcopy :: "store \<Rightarrow> nat \<Rightarrow> store \<times> nat" where
  "deepcopy h p = (h @ [h ! p], length h)"

fun join_loop_refs :: "store \<Rightarrow> nat \<Rightarrow> nat list \<Rightarrow> int \<Rightarrow> bool \<Rightarrow> string \<Rightarrow> store \<times> (error + nat)" where
  "join_loop_refs h p1 [] r average kind = (h, Inr p1)"
| "join_loop_refs h p1 (q # rest) r average kind =
     (case deepcopy h q of
        (h', p2) \<Rightarrow>
          (case join_step (h' ! p1) (h' ! p2) r average kind of
             Inl err \<Rightarrow> (h', Inl err)
           | Inr S1' \<Rightarrow> join_loop_refs (h'[p1 := S1']) p1 rest r average kind))"

definition join_spectra_refs :: "store \<Rightarrow> nat list \<Rightarrow> int \<Rightarrow> bool \<Rightarrow> string \<Rightarrow> store \<times> (error + nat)" where
  "join_spectra_refs h S r average kind =
     (case overlap_check (map (\<lambda>p. h ! p) S) of
        Inl err \<Rightarrow> (h, Inl err)
      | Inr ok \<Rightarrow>
          (case S of
             [] \<Rightarrow> (h, Inl (IndexError ''list index out of range''))
           | p0 # rest \<Rightarrow>
               (case deepcopy h p0 of (h', p1) \<Rightarrow> join_loop_refs h' p1 rest r average kind)))"

subsection \<open>The invariant of a spectrum\<close>

text \<open>
  The data model asks of every spectrum that the last dimension of its data is as long as
  its signal axis: every row has one sample for each sample of the axis.
\<close>

definition shape_invariant :: "spectrum \<Rightarrow> bool" where
  "shape_invariant S \<longleftrightarrow> list_all (\<lambda>row. length row = length (axis (signal_axis S))) (data S)"

subsection \<open>The scaling factor in the words of the specification\<close>





subsection \<open>Example spectra\<close>



text \<open>
  The axes of its scenario for non-uniform axes, with data of our choice (the
  specification gives none).
\<close>

definition scenario_C :: spectrum where
  "scenario_C =
     \<lparr>signal_axis = DataAxis ''Wavelength'' ''nm'' False [1, 15 / 10, 22 / 10, 3, 38 / 10, 45 / 10],
      data = [[Num 1, Num 1, Num 1, Num 1, Num 1, Num 1]]\<rparr>"

definition scenario_D :: spectrum where
  "scenario_D =
     \<lparr>signal_axis = DataAxis ''Wavelength'' ''nm'' False [35 / 10, 4, 45 / 10, 5, 56 / 10],
      data = [[Num 2, Num 2, Num 2, Num 2, Num 2]]\<rparr>"

text \<open>
  Small spectra for the examples below: \<open>example_A\<close> on 0..8 and \<open>example_B\<close> on 4..12 in
  steps of 1; \<open>example_ramp\<close> on 4.5..12.5 with rising data; \<open>example_far\<close> on 20..24,
  beyond the end of \<open>example_A\<close>; \<open>example_touch\<close> on 8..12, starting where \<open>example_A\<close>
  ends; and the same two axes as \<open>example_A\<close> and \<open>example_B\<close> held as non-uniform axes.
\<close>

definition example_A :: spectrum where
  "example_A =
     \<lparr>signal_axis = UniformDataAxis ''Wavelength'' ''nm'' False 0 1 9,
      data = [[Num 1, Num 1, Num 1, Num 1, Num 1, Num 1, Num 1, Num 1, Num 1]]\<rparr>"

definition example_B :: spectrum where
  "example_B =
     \<lparr>signal_axis = UniformDataAxis ''Wavelength'' ''nm'' False 4 1 9,
      data = [[Num 2, Num 2, Num 2, Num 2, Num 2, Num 2, Num 2, Num 2, Num 2]]\<rparr>"


definition example_far :: spectrum where
  "example_far =
     \<lparr>signal_axis = UniformDataAxis ''Wavelength'' ''nm'' False 20 1 5,
      data = [[Num 2, Num 2, Num 2, Num 2, Num 2]]\<rparr>"

definition example_touch :: spectrum where
  "example_touch =
     \<lparr>signal_axis = UniformDataAxis ''Wavelength'' ''nm'' False 8 1 5,
      data = [[Num 2, Num 2, Num 2, Num 2, Num 2]]\<rparr>"

definition example_C :: spectrum where
  "example_C =
     \<lparr>signal_axis = DataAxis ''Wavelength'' ''nm'' False [0, 1, 2, 3, 4, 5, 6, 7, 8],
      data = [[Num 1, Num 1, Num 1, Num 1, Num 1, Num 1, Num 1, Num 1, Num 1]]\<rparr>"

definition example_D :: spectrum where
  "example_D =
     \<lparr>signal_axis = DataAxis ''Wavelength'' ''nm'' False [4, 5, 6, 7, 8, 9, 10, 11, 12],
      data = [[Num 2, Num 2, Num 2, Num 2, Num 2, Num 2, Num 2, Num 2, Num 2]]\<rparr>"


section \<open>Properties of the conversions\<close>

subsection \<open>Bounds on the refractive index\<close>

text \<open>
  From 184 nm upwards \<open>10\<^sup>6 / x\<^sup>2\<close> stays below 30, both denominators of the
  dispersion formula stay positive, and the index lies between 1.00027 and 1.00035; it
  falls as the wavelength grows, slowly enough for \<open>n_air x * x\<close> to grow.
\<close>

lemma n_air_eq:
  assumes "x \<noteq> 0"
  shows "n_air x = 10000806051 / 10 ^ 10
           + (2480990 / 10 ^ 8) / (132274 / 10 ^ 3 - 10 ^ 6 / x ^ 2)
           + (174557 / 10 ^ 9) / (3932957 / 10 ^ 5 - 10 ^ 6 / x ^ 2)"
proof -
  have "1 / (x / 1000) ^ 2 = 10 ^ 6 / x ^ 2"
    using assms by (simp add: power_divide)
  then show ?thesis
    unfolding n_air_def Let_def by simp
qed

lemma recip_sq_bounds:
  assumes "184 \<le> (x::real)"
  shows "0 < 10 ^ 6 / x ^ 2" and "10 ^ 6 / x ^ 2 \<le> 30"
proof -
  have x2: "184 ^ 2 \<le> x ^ 2"
    using assms by (intro power_mono) auto
  have pos: "0 < x ^ 2" using assms by (intro zero_less_power) auto
  then show "0 < 10 ^ 6 / x ^ 2" by simp
  have "10 ^ 6 / x ^ 2 \<le> 10 ^ 6 / (184::real) ^ 2"
    using x2 by (intro divide_left_mono) auto
  then show "10 ^ 6 / x ^ 2 \<le> 30" by simp
qed

lemma term_bounds:
  assumes "0 < b" "30 < B" "0 < u" "u \<le> (30::real)"
  shows "b / B < b / (B - u)" and "b / (B - u) \<le> b / (B - 30)"
proof -
  show "b / B < b / (B - u)"
    using assms by (intro divide_strict_left_mono) (auto intro: mult_pos_pos)
  show "b / (B - u) \<le> b / (B - 30)"
    using assms by (intro divide_left_mono) (auto intro: mult_pos_pos)
qed

lemma n_air_bounds:
  assumes "184 \<le> x"
  shows "100027 / 100000 < n_air x" and "n_air x < 100035 / 100000"
proof -
  let ?u = "10 ^ 6 / x ^ 2"
  have u: "0 < ?u" "?u \<le> 30" using recip_sq_bounds[OF assms] by auto
  have x0: "x \<noteq> 0" using assms by auto
  note t1 = term_bounds[of "2480990 / 10 ^ 8" "132274 / 10 ^ 3" ?u, OF _ _ u]
  note t2 = term_bounds[of "174557 / 10 ^ 9" "3932957 / 10 ^ 5" ?u, OF _ _ u]
  have a: "(2480990 / 10 ^ 8) / (132274 / 10 ^ 3) < (2480990 / 10 ^ 8) / (132274 / 10 ^ 3 - ?u)"
    using t1(1) by simp
  have b: "(174557 / 10 ^ 9) / (3932957 / 10 ^ 5) < (174557 / 10 ^ 9) / (3932957 / 10 ^ 5 - ?u)"
    using t2(1) by simp
  have c: "(2480990 / 10 ^ 8) / (132274 / 10 ^ 3 - ?u) \<le> (2480990 / 10 ^ 8) / (132274 / 10 ^ 3 - 30)"
    using t1(2) by simp
  have d: "(174557 / 10 ^ 9) / (3932957 / 10 ^ 5 - ?u) \<le> (174557 / 10 ^ 9) / (3932957 / 10 ^ 5 - 30)"
    using t2(2) by simp
  show "100027 / 100000 < n_air x"
    unfolding n_air_eq[OF x0] using a b by simp
  show "n_air x < 100035 / 100000"
    unfolding n_air_eq[OF x0] using c d by simp
qed


lemma term_diff:
  assumes "0 < b" "30 < B" "0 < v" "v \<le> u" "u \<le> (30::real)"
  shows "0 \<le> b / (B - u) - b / (B - v)"
    and "b / (B - u) - b / (B - v) \<le> b * (u - v) / (B - 30) ^ 2"
proof -
  have pu: "0 < B - u" and pv: "0 < B - v" using assms by auto
  have eq: "b / (B - u) - b / (B - v) = b * (u - v) / ((B - u) * (B - v))"
    using pu pv by (simp add: field_simps)
  have num: "0 \<le> b * (u - v)" using assms by simp
  show "0 \<le> b / (B - u) - b / (B - v)"
    unfolding eq using num pu pv by (intro divide_nonneg_pos mult_pos_pos)
  have "(B - 30) * (B - 30) \<le> (B - u) * (B - v)"
    using assms by (intro mult_mono) auto
  then have den: "(B - 30) ^ 2 \<le> (B - u) * (B - v)"
    by (simp add: power2_eq_square)
  have "0 < (B - u) * (B - v) * (B - 30) ^ 2"
    using pu pv assms by (intro mult_pos_pos) auto
  then show "b / (B - u) - b / (B - v) \<le> b * (u - v) / (B - 30) ^ 2"
    unfolding eq using den num by (intro divide_left_mono)
qed

lemma recip_sq_diff:
  assumes "184 \<le> x" "x \<le> (y::real)"
  shows "10 ^ 6 / y ^ 2 \<le> 10 ^ 6 / x ^ 2"
    and "x * (10 ^ 6 / x ^ 2 - 10 ^ 6 / y ^ 2) \<le> 60 * (y - x)"
proof -
  have xp: "0 < x" and yp: "0 < y" using assms by auto
  have "x ^ 2 \<le> y ^ 2" using assms by (intro power_mono) auto
  moreover have "0 < y ^ 2 * x ^ 2"
    using xp yp by (intro mult_pos_pos zero_less_power)
  ultimately show "10 ^ 6 / y ^ 2 \<le> 10 ^ 6 / x ^ 2"
    by (intro divide_left_mono) auto
  have eq: "x * (10 ^ 6 / x ^ 2 - 10 ^ 6 / y ^ 2) = 10 ^ 6 * (y + x) * (y - x) / (x * y ^ 2)"
    using xp yp by (simp add: field_simps power2_eq_square)
  have "10 ^ 6 * (y + x) \<le> 10 ^ 6 * (2 * y)" using assms by simp
  also have "\<dots> \<le> 60 * (184 * 184) * y" using yp by simp
  also have "\<dots> \<le> 60 * (x * y) * y"
    using assms xp yp by (intro mult_right_mono mult_left_mono mult_mono) auto
  finally have "10 ^ 6 * (y + x) \<le> 60 * (x * y ^ 2)"
    by (simp add: power2_eq_square)
  then have "10 ^ 6 * (y + x) * (y - x) \<le> 60 * (x * y ^ 2) * (y - x)"
    using assms by (intro mult_right_mono) auto
  then have "10 ^ 6 * (y + x) * (y - x) / (x * y ^ 2) \<le> 60 * (y - x)"
    using xp yp by (simp add: field_simps)
  then show "x * (10 ^ 6 / x ^ 2 - 10 ^ 6 / y ^ 2) \<le> 60 * (y - x)"
    using eq by simp
qed

lemma n_air_diff:
  assumes "184 \<le> x" "x \<le> y"
  shows "0 \<le> n_air x - n_air y"
    and "n_air x - n_air y \<le> (5 / 10 ^ 6) * (10 ^ 6 / x ^ 2 - 10 ^ 6 / y ^ 2)"
proof -
  let ?u = "10 ^ 6 / x ^ 2" and ?v = "10 ^ 6 / y ^ 2"
  have y: "184 \<le> y" using assms by simp
  have x0: "x \<noteq> 0" and y0: "y \<noteq> 0" using assms by auto
  have u: "?u \<le> 30" using recip_sq_bounds(2)[OF assms(1)] .
  have v: "0 < ?v" using recip_sq_bounds(1)[OF y] .
  have vu: "?v \<le> ?u" using recip_sq_diff(1)[OF assms] .
  note d1 = term_diff[of "2480990 / 10 ^ 8" "132274 / 10 ^ 3" ?v ?u, OF _ _ v vu u]
  note d2 = term_diff[of "174557 / 10 ^ 9" "3932957 / 10 ^ 5" ?v ?u, OF _ _ v vu u]
  have split: "n_air x - n_air y =
      ((2480990 / 10 ^ 8) / (132274 / 10 ^ 3 - ?u) - (2480990 / 10 ^ 8) / (132274 / 10 ^ 3 - ?v))
    + ((174557 / 10 ^ 9) / (3932957 / 10 ^ 5 - ?u) - (174557 / 10 ^ 9) / (3932957 / 10 ^ 5 - ?v))"
    unfolding n_air_eq[OF x0] n_air_eq[OF y0] by simp
  have a: "0 \<le> (2480990 / 10 ^ 8) / (132274 / 10 ^ 3 - ?u) - (2480990 / 10 ^ 8) / (132274 / 10 ^ 3 - ?v)"
    using d1(1) by simp
  have b: "0 \<le> (174557 / 10 ^ 9) / (3932957 / 10 ^ 5 - ?u) - (174557 / 10 ^ 9) / (3932957 / 10 ^ 5 - ?v)"
    using d2(1) by simp
  show "0 \<le> n_air x - n_air y"
    unfolding split using a b by (rule add_nonneg_nonneg)
  have c: "(2480990 / 10 ^ 8) / (132274 / 10 ^ 3 - ?u) - (2480990 / 10 ^ 8) / (132274 / 10 ^ 3 - ?v)
             \<le> (25 / 10 ^ 7) * (?u - ?v)"
  proof -
    have "(2480990 / 10 ^ 8) * (?u - ?v) / (132274 / 10 ^ 3 - 30) ^ 2 \<le> (25 / 10 ^ 7) * (?u - ?v)"
      using vu by (simp add: power2_eq_square)
    with d1(2) show ?thesis by (rule order_trans) simp_all
  qed
  have d: "(174557 / 10 ^ 9) / (3932957 / 10 ^ 5 - ?u) - (174557 / 10 ^ 9) / (3932957 / 10 ^ 5 - ?v)
             \<le> (25 / 10 ^ 7) * (?u - ?v)"
  proof -
    have "(174557 / 10 ^ 9) * (?u - ?v) / (3932957 / 10 ^ 5 - 30) ^ 2 \<le> (25 / 10 ^ 7) * (?u - ?v)"
      using vu by (simp add: power2_eq_square)
    with d2(2) show ?thesis by (rule order_trans) simp_all
  qed
  show "n_air x - n_air y \<le> (5 / 10 ^ 6) * (?u - ?v)"
    unfolding split using c d by simp
qed

lemma n_air_times_strict_mono:
  assumes "184 \<le> x" "x < y"
  shows "n_air x * x < n_air y * y"
proof -
  have xp: "0 < x" using assms by simp
  have xy: "x \<le> y" using assms by simp
  have "x * (n_air x - n_air y) \<le> x * ((5 / 10 ^ 6) * (10 ^ 6 / x ^ 2 - 10 ^ 6 / y ^ 2))"
    using n_air_diff(2)[OF assms(1) xy] xp by (intro mult_left_mono) auto
  also have "\<dots> = (5 / 10 ^ 6) * (x * (10 ^ 6 / x ^ 2 - 10 ^ 6 / y ^ 2))"
    by simp
  also have "\<dots> \<le> (5 / 10 ^ 6) * (60 * (y - x))"
    using recip_sq_diff(2)[OF assms(1) xy] by (intro mult_left_mono) auto
  finally have lip: "x * (n_air x - n_air y) \<le> (3 / 10 ^ 4) * (y - x)"
    by simp
  have "184 \<le> y" using assms by simp
  then have "1 < n_air y" using n_air_bounds(1)[of y] by simp
  then have "(3 / 10 ^ 4) * (y - x) < n_air y * (y - x)"
    using assms by (intro mult_strict_right_mono) auto
  then have "x * (n_air x - n_air y) < n_air y * (y - x)"
    using lip by simp
  then show ?thesis by (simp add: algebra_simps)
qed


lemma hc_pos: "0 < 10 ^ 9 * c_h * c_c" and ce_pos: "0 < c_e" and ch_pos: "0 < c_h" and cc_pos: "0 < c_c"
  by (simp_all add: c_h_def c_c_def c_e_def)

lemma nm2eV_strict_antimono:
  assumes "184 \<le> x" "x < y"
  shows "nm2eV y < nm2eV x"
proof -
  have "0 < n_air x" using n_air_bounds(1)[OF assms(1)] by simp
  then have px: "0 < n_air x * x" using assms by (intro mult_pos_pos) auto
  have "c_e * (n_air x * x) < c_e * (n_air y * y)"
    using n_air_times_strict_mono[OF assms] ce_pos by (intro mult_strict_left_mono)
  moreover have "0 < c_e * (n_air x * x)" using px ce_pos by simp
  ultimately have "10 ^ 9 * c_h * c_c / (c_e * (n_air y * y)) < 10 ^ 9 * c_h * c_c / (c_e * (n_air x * x))"
    using hc_pos by (intro divide_strict_left_mono) (auto intro: mult_pos_pos)
  then show ?thesis by (simp add: nm2eV_def mult.assoc)
qed

lemma sorted_rev_map_nm2eV:
  assumes "sorted_wrt (<) xs" "\<forall>x\<in>set xs. 184 \<le> x"
  shows "sorted_wrt (<) (rev (map nm2eV xs))"
proof -
  have "sorted_wrt (\<lambda>x y. nm2eV y < nm2eV x) xs"
    using assms(1)
  proof (rule sorted_wrt_mono_rel[rotated])
    fix x y assume "x \<in> set xs" "y \<in> set xs" "x < y"
    then show "nm2eV y < nm2eV x" using assms(2) nm2eV_strict_antimono by blast
  qed
  then show ?thesis by (simp add: sorted_wrt_rev sorted_wrt_map)
qed

lemma roundtrip_eq:
  assumes "184 \<le> x"
  shows "eV2nm (nm2eV x) = n_air x * x / n_air ((12395 / 10) / nm2eV x)"
proof -
  have n: "n_air x \<noteq> 0" using n_air_bounds(1)[OF assms] by simp
  have x: "x \<noteq> 0" using assms by simp
  have k: "c_h \<noteq> 0" "c_c \<noteq> 0" "c_e \<noteq> 0" using ch_pos cc_pos ce_pos by simp_all
  show ?thesis
    using n x k by (simp add: eV2nm_def Let_def nm2eV_def)
qed

lemma approx_wl_bounds:
  assumes "185 \<le> x"
  shows "(9999 / 10000) * x \<le> (12395 / 10) / nm2eV x" and "(12395 / 10) / nm2eV x \<le> (10001 / 10000) * x"
proof -
  define k where "k = (12395 / 10) * c_e / (10 ^ 9 * c_h * c_c)"
  have x184: "184 \<le> x" using assms by simp
  have n: "n_air x \<noteq> 0" using n_air_bounds(1)[OF x184] by simp
  have x: "x \<noteq> 0" using assms by simp
  have eq: "(12395 / 10) / nm2eV x = k * n_air x * x"
    using n x by (simp add: nm2eV_def k_def)
  have c1: "99972 / 100000 \<le> k" and c2: "k \<le> 99973 / 100000"
    by (simp_all add: k_def c_h_def c_c_def c_e_def)
  have xp: "0 \<le> x" using assms by simp
  have "(9999 / 10000) \<le> (99972 / 100000) * (100027 / 100000 :: real)" by simp
  also have "\<dots> \<le> k * n_air x"
    using c1 n_air_bounds(1)[OF x184] by (intro mult_mono) simp_all
  finally show "(9999 / 10000) * x \<le> (12395 / 10) / nm2eV x"
    unfolding eq using xp by (intro mult_right_mono)
  have "k * n_air x \<le> (99973 / 100000) * (100035 / 100000)"
    using c1 c2 n_air_bounds[OF x184] by (intro mult_mono) simp_all
  also have "\<dots> \<le> (10001 / 10000 :: real)" by simp
  finally show "(12395 / 10) / nm2eV x \<le> (10001 / 10000) * x"
    unfolding eq using xp by (intro mult_right_mono)
qed

lemma roundtrip_close:
  assumes "185 \<le> x" "x \<le> 1700"
  shows "\<bar>eV2nm (nm2eV x) - x\<bar> < 1 / 2"
proof -
  let ?w = "(12395 / 10) / nm2eV x"
  have x184: "184 \<le> x" using assms by simp
  have "184 \<le> (9999 / 10000) * x" using assms by simp
  then have w184: "184 \<le> ?w" using approx_wl_bounds(1)[OF assms(1)] by simp
  note bx = n_air_bounds[OF x184] and bw = n_air_bounds[OF w184]
  have nw: "0 < n_air ?w" using bw(1) by simp
  have "eV2nm (nm2eV x) - x = x * (n_air x - n_air ?w) / n_air ?w"
    using nw by (simp add: roundtrip_eq[OF x184] field_simps)
  then have "\<bar>eV2nm (nm2eV x) - x\<bar> = x * \<bar>n_air x - n_air ?w\<bar> / n_air ?w"
    using nw assms by (simp add: abs_mult)
  also have "\<dots> \<le> x * \<bar>n_air x - n_air ?w\<bar>"
  proof -
    have "0 \<le> x * \<bar>n_air x - n_air ?w\<bar>" using assms by simp
    moreover have "1 \<le> n_air ?w" using bw(1) by simp
    ultimately show ?thesis using nw by (simp add: pos_divide_le_eq mult_le_cancel_left1)
  qed
  also have "\<dots> \<le> 1700 * (8 / 100000)"
  proof -
    have "\<bar>n_air x - n_air ?w\<bar> \<le> 8 / 100000" using bx bw by linarith
    then show ?thesis using assms by (intro mult_mono) auto
  qed
  finally show ?thesis by simp
qed


subsection \<open>The claims about the conversions\<close>

lemma map2_nth:
  "length xs = length ys \<Longrightarrow> map2 f xs ys = map (\<lambda>i. f (xs ! i) (ys ! i)) [0..<length xs]"
  by (rule nth_equalityI) auto

lemma micro_m_not_eV: "micro_m \<noteq> ''eV''"
  by (simp add: micro_m_def)

lemma steps_Cons2: "steps (x # y # zs) = (y - x) # steps (y # zs)"
  by (simp add: steps_def)

lemma steps_positive: "list_all (\<lambda>d. 0 < d) (steps xs) \<longleftrightarrow> sorted_wrt (<) xs"
proof (induction xs rule: induct_list012)
  case 1
  show ?case by (simp add: steps_def)
next
  case (2 x)
  show ?case by (simp add: steps_def)
next
  case (3 x y zs)
  have "sorted_wrt (<) (x # y # zs) \<longleftrightarrow> x < y \<and> sorted_wrt (<) (y # zs)"
    by auto
  then show ?case using 3 by (simp add: steps_Cons2)
qed

lemma steps_negative: "list_all (\<lambda>d. d < 0) (steps xs) \<longleftrightarrow> sorted_wrt (\<lambda>a b. b < a) xs"
proof (induction xs rule: induct_list012)
  case 1
  show ?case by (simp add: steps_def)
next
  case (2 x)
  show ?case by (simp add: steps_def)
next
  case (3 x y zs)
  have "sorted_wrt (\<lambda>a b. b < a) (x # y # zs) \<longleftrightarrow> y < x \<and> sorted_wrt (\<lambda>a b. b < a) (y # zs)"
    by auto
  then show ?case using 3 by (simp add: steps_Cons2)
qed

lemma is_ordered_iff: "is_ordered xs \<longleftrightarrow> sorted_wrt (<) xs \<or> sorted_wrt (\<lambda>a b. b < a) xs"
  by (simp add: is_ordered_def steps_positive steps_negative)

lemma new_DataAxis_ordered:
  "sorted_wrt (<) vs \<Longrightarrow> new_DataAxis vs nm u nav = Inr (DataAxis nm u nav vs)"
  by (simp add: new_DataAxis_def is_ordered_iff)

lemma ascending_nm:
  assumes "sorted_wrt (<) ws" "\<forall>w\<in>set ws. 185 \<le> f w" "\<And>a b. a < b \<Longrightarrow> f a < f b"
  shows "sorted_wrt (<) (rev (map (\<lambda>w. nm2eV (f w)) ws))"
proof -
  have asc: "sorted_wrt (<) (map f ws)"
    using assms(1,3) by (auto simp: sorted_wrt_map elim: sorted_wrt_mono_rel [rotated])
  have rng: "\<forall>v\<in>set (map f ws). 184 \<le> v"
  proof
    fix v assume "v \<in> set (map f ws)"
    then have "v \<in> f ` set ws" by (simp only: set_map)
    then obtain w where v: "v = f w" and "w \<in> set ws" by (rule imageE)
    then have "185 \<le> f w" using assms(2) by blast
    then show "184 \<le> v" unfolding v by linarith
  qed
  have "sorted_wrt (<) (rev (map nm2eV (map f ws)))"
    using sorted_rev_map_nm2eV [OF asc rng] .
  then show ?thesis by (simp add: comp_def)
qed

lemma axis2eV_ascending:
  assumes "units ax0 \<noteq> ''eV''" "sorted_wrt (<) (axis ax0)"
    and "\<forall>w\<in>set (axis ax0). 185 \<le> (if units ax0 = micro_m then 1000 * w else w)"
  shows "axis2eV ax0 =
     Inr (DataAxis ''Energy'' ''eV'' False
            (rev (map (\<lambda>w. nm2eV (if units ax0 = micro_m then 1000 * w else w)) (axis ax0))),
          if units ax0 = micro_m then 10 ^ 3 else 10 ^ 6)"
    and "sorted_wrt (<) (rev (map (\<lambda>w. nm2eV (if units ax0 = micro_m then 1000 * w else w)) (axis ax0)))"
proof -
  let ?nm = "\<lambda>w. if units ax0 = micro_m then 1000 * w else w"
  have m: "\<And>a b::real. a < b \<Longrightarrow> ?nm a < ?nm b" by simp
  show s: "sorted_wrt (<) (rev (map (\<lambda>w. nm2eV (?nm w)) (axis ax0)))"
    using ascending_nm [of "axis ax0" ?nm, OF assms(2,3) m] .
  show "axis2eV ax0 =
     Inr (DataAxis ''Energy'' ''eV'' False (rev (map (\<lambda>w. nm2eV (?nm w)) (axis ax0))),
          if units ax0 = micro_m then 10 ^ 3 else 10 ^ 6)"
  proof (cases "units ax0 = micro_m")
    case True
    then have "sorted_wrt (<) (rev (map (\<lambda>w. nm2eV (1000 * w)) (axis ax0)))" using s by simp
    then show ?thesis
      using True assms(1) by (simp add: axis2eV_def comp_def new_DataAxis_ordered)
  next
    case False
    then have "sorted_wrt (<) (rev (map nm2eV (axis ax0)))" using s by simp
    then show ?thesis
      using False assms(1) by (simp add: axis2eV_def comp_def new_DataAxis_ordered)
  qed
qed

text \<open>
  Claim C7. \<open>axis2eV\<close> raises the unit error exactly when the unit of the axis is \<open>eV\<close>.
  For the unit \<open>\<mu>m\<close> the samples are multiplied by 1000 before the conversion and the
  factor is \<open>10\<^sup>3\<close>; for every other unit the samples are converted as they are and the
  factor is \<open>10\<^sup>6\<close>. In both cases the function returns the axis of the converted samples
  in reverse order, unless the constructor of that axis rejects them: more than one sample,
  neither strictly ascending nor strictly descending, and then the exception is the
  \<open>ValueError\<close> of the constructor and not the unit error. It returns for every strictly
  ascending axis of wavelengths of at least 185 nm.
\<close>

theorem axis2eV_unit_error_and_factor:
  "(axis2eV ax0 = Inl UnitError \<longleftrightarrow> units ax0 = ''eV'')
   \<and> (units ax0 = micro_m \<longrightarrow>
        axis2eV ax0 =
          (if 1 < length (axis ax0) \<and> \<not> is_ordered (rev (map (\<lambda>x. nm2eV (1000 * x)) (axis ax0)))
           then Inl (ValueError ''The non-uniform axis needs to be ordered.'')
           else Inr (DataAxis ''Energy'' ''eV'' False (rev (map (\<lambda>x. nm2eV (1000 * x)) (axis ax0))),
                     10 ^ 3)))
   \<and> (units ax0 \<noteq> ''eV'' \<and> units ax0 \<noteq> micro_m \<longrightarrow>
        axis2eV ax0 =
          (if 1 < length (axis ax0) \<and> \<not> is_ordered (rev (map nm2eV (axis ax0)))
           then Inl (ValueError ''The non-uniform axis needs to be ordered.'')
           else Inr (DataAxis ''Energy'' ''eV'' False (rev (map nm2eV (axis ax0))), 10 ^ 6)))
   \<and> (units ax0 \<noteq> ''eV'' \<and> sorted_wrt (<) (axis ax0)
        \<and> (\<forall>w\<in>set (axis ax0). 185 \<le> (if units ax0 = micro_m then 1000 * w else w))
      \<longrightarrow> (\<exists>ev factor. axis2eV ax0 = Inr (ev, factor)))"
proof (intro conjI impI)
  show "axis2eV ax0 = Inl UnitError \<longleftrightarrow> units ax0 = ''eV''"
    by (auto simp: axis2eV_def UnitError_def new_DataAxis_def split: if_splits)
next
  assume "units ax0 = micro_m"
  then show "axis2eV ax0 =
          (if 1 < length (axis ax0) \<and> \<not> is_ordered (rev (map (\<lambda>x. nm2eV (1000 * x)) (axis ax0)))
           then Inl (ValueError ''The non-uniform axis needs to be ordered.'')
           else Inr (DataAxis ''Energy'' ''eV'' False (rev (map (\<lambda>x. nm2eV (1000 * x)) (axis ax0))),
                     10 ^ 3))"
    using micro_m_not_eV by (simp add: axis2eV_def new_DataAxis_def comp_def)
next
  assume "units ax0 \<noteq> ''eV'' \<and> units ax0 \<noteq> micro_m"
  then show "axis2eV ax0 =
          (if 1 < length (axis ax0) \<and> \<not> is_ordered (rev (map nm2eV (axis ax0)))
           then Inl (ValueError ''The non-uniform axis needs to be ordered.'')
           else Inr (DataAxis ''Energy'' ''eV'' False (rev (map nm2eV (axis ax0))), 10 ^ 6))"
    by (simp add: axis2eV_def new_DataAxis_def)
next
  assume "units ax0 \<noteq> ''eV'' \<and> sorted_wrt (<) (axis ax0)
        \<and> (\<forall>w\<in>set (axis ax0). 185 \<le> (if units ax0 = micro_m then 1000 * w else w))"
  then show "\<exists>ev factor. axis2eV ax0 = Inr (ev, factor)"
    using axis2eV_ascending(1) [of ax0] by blast
qed

theorem axis2eV_unit_error_and_factor_witness:
  "axis2eV (DataAxis ''Energy'' ''eV'' False [2, 3]) = Inl UnitError
   \<and> axis2eV (UniformDataAxis ''Wavelength'' micro_m False (1 / 2) (1 / 10) 2)
       = Inr (DataAxis ''Energy'' ''eV'' False [nm2eV 600, nm2eV 500], 10 ^ 3)
   \<and> axis2eV (UniformDataAxis ''Wavelength'' ''nm'' False 500 100 2)
       = Inr (DataAxis ''Energy'' ''eV'' False [nm2eV 600, nm2eV 500], 10 ^ 6)
   \<and> (\<exists>ev factor. axis2eV (DataAxis ''Wavelength'' ''nm'' False [500, 600]) = Inr (ev, factor))"
proof -
  have o: "is_ordered [nm2eV 600, nm2eV 500]"
    using nm2eV_strict_antimono [of 500 600] by (simp add: is_ordered_iff)
  have s: "sorted_wrt (<) (axis (DataAxis ''Wavelength'' ''nm'' False [500, 600]))
      \<and> (\<forall>w\<in>set (axis (DataAxis ''Wavelength'' ''nm'' False [500, 600])).
            185 \<le> (if units (DataAxis ''Wavelength'' ''nm'' False [500, 600]) = micro_m then 1000 * w else w))"
    by simp
  show ?thesis
    using axis2eV_unit_error_and_factor [of "DataAxis ''Energy'' ''eV'' False [2, 3]"]
      axis2eV_unit_error_and_factor [of "UniformDataAxis ''Wavelength'' micro_m False (1 / 2) (1 / 10) 2"]
      axis2eV_unit_error_and_factor [of "UniformDataAxis ''Wavelength'' ''nm'' False 500 100 2"]
      axis2eV_unit_error_and_factor [of "DataAxis ''Wavelength'' ''nm'' False [500, 600]"] o s
    by (simp add: micro_m_def upt_rec)
qed

text \<open>
  A uniform axis in nm with three samples and scale 0 holds the same wavelength three
  times. Its unit is not \<open>eV\<close>, and \<open>axis2eV\<close> does not return: the constructor of the
  energy axis raises.
\<close>

theorem axis2eV_constant_axis_raises:
  "units (UniformDataAxis ''Wavelength'' ''nm'' False 500 0 3) \<noteq> ''eV''
   \<and> axis2eV (UniformDataAxis ''Wavelength'' ''nm'' False 500 0 3)
       = Inl (ValueError ''The non-uniform axis needs to be ordered.'')"
  by (simp add: axis2eV_def new_DataAxis_def is_ordered_def steps_def micro_m_def upt_rec)

text \<open>
  Claim C8. On the valid range of wavelengths, 185 nm to 1700 nm, \<open>nm2eV\<close> is strictly
  decreasing. For an axis that is not in \<open>eV\<close>, whose samples are strictly ascending and,
  taken in nm, lie in that range, \<open>axis2eV\<close> returns an energy axis that holds the converted
  samples in reverse order, is strictly ascending and has as many samples as the input.
\<close>

theorem nm2eV_decreasing_axis2eV_ascending:
  "(185 \<le> x \<and> x < y \<and> y \<le> 1700 \<longrightarrow> nm2eV y < nm2eV x)
   \<and> (units ax0 \<noteq> ''eV'' \<and> sorted_wrt (<) (axis ax0)
        \<and> (\<forall>w\<in>set (axis ax0). 185 \<le> (if units ax0 = micro_m then 1000 * w else w)
                                \<and> (if units ax0 = micro_m then 1000 * w else w) \<le> 1700)
      \<longrightarrow> (\<exists>ev factor. axis2eV ax0 = Inr (ev, factor)
            \<and> axis ev = rev (map (\<lambda>w. nm2eV (if units ax0 = micro_m then 1000 * w else w)) (axis ax0))
            \<and> sorted_wrt (<) (axis ev)
            \<and> length (axis ev) = length (axis ax0)))"
proof (intro conjI impI)
  assume "185 \<le> x \<and> x < y \<and> y \<le> 1700"
  then show "nm2eV y < nm2eV x"
    using nm2eV_strict_antimono [of x y] by simp
next
  let ?nm = "\<lambda>w. if units ax0 = micro_m then 1000 * w else w"
  assume a: "units ax0 \<noteq> ''eV'' \<and> sorted_wrt (<) (axis ax0)
        \<and> (\<forall>w\<in>set (axis ax0). 185 \<le> ?nm w \<and> ?nm w \<le> 1700)"
  then have r: "\<forall>w\<in>set (axis ax0). 185 \<le> ?nm w" by blast
  note e = axis2eV_ascending [of ax0, OF _ _ r]
  show "\<exists>ev factor. axis2eV ax0 = Inr (ev, factor)
            \<and> axis ev = rev (map (\<lambda>w. nm2eV (?nm w)) (axis ax0))
            \<and> sorted_wrt (<) (axis ev)
            \<and> length (axis ev) = length (axis ax0)"
    using a e by auto
qed

theorem nm2eV_decreasing_axis2eV_ascending_witness:
  "nm2eV 600 < nm2eV 500
   \<and> axis2eV (UniformDataAxis ''Wavelength'' ''nm'' False 500 100 3)
       = Inr (DataAxis ''Energy'' ''eV'' False [nm2eV 700, nm2eV 600, nm2eV 500], 10 ^ 6)
   \<and> sorted_wrt (<) [nm2eV 700, nm2eV 600, nm2eV 500]"
proof -
  let ?W = "UniformDataAxis ''Wavelength'' ''nm'' False 500 100 3"
  have ax: "axis ?W = [500, 600, 700]"
    by (simp add: upt_rec)
  have r: "185 \<le> (500::real) \<and> (500::real) < 600 \<and> (600::real) \<le> 1700"
    by simp
  have pre: "units ?W \<noteq> ''eV'' \<and> sorted_wrt (<) (axis ?W)
        \<and> (\<forall>w\<in>set (axis ?W). 185 \<le> (if units ?W = micro_m then 1000 * w else w)
                                \<and> (if units ?W = micro_m then 1000 * w else w) \<le> 1700)"
    unfolding ax by (simp add: micro_m_def)
  from nm2eV_decreasing_axis2eV_ascending [of 500 600 ?W] r pre
  obtain ev factor where "nm2eV 600 < nm2eV 500" and e: "axis2eV ?W = Inr (ev, factor)"
    and v: "axis ev = rev (map (\<lambda>w. nm2eV (if units ?W = micro_m then 1000 * w else w)) (axis ?W))"
    and s: "sorted_wrt (<) (axis ev)"
    by blast
  have l: "sorted_wrt (<) [nm2eV 700, nm2eV 600, nm2eV 500]"
    using s unfolding v ax by (simp add: micro_m_def)
  then have "is_ordered [nm2eV 700, nm2eV 600, nm2eV 500]"
    unfolding is_ordered_iff by blast
  then have "axis2eV ?W = Inr (DataAxis ''Energy'' ''eV'' False [nm2eV 700, nm2eV 600, nm2eV 500], 10 ^ 6)"
    unfolding axis2eV_def ax by (simp add: micro_m_def new_DataAxis_def)
  with \<open>nm2eV 600 < nm2eV 500\<close> l show ?thesis by blast
qed

text \<open>
  Claim C9. On arrays of one length, \<open>data2eV\<close> returns, sample by sample,
  \<open>data * factor * h * c / (e * n_air w * E\<^sup>2)\<close>, where \<open>w\<close> is the sample of the
  reversed wavelength axis and \<open>E\<close> the sample of the energy axis at the same index; and
  at every index the energy axis that \<open>axis2eV\<close> returns for a wavelength axis in nm holds
  the energy of that same sample of the reversed wavelength axis.
\<close>

theorem data2eV_jacobian:
  "length counts = length ax0 \<and> length evaxis = length ax0 \<longrightarrow>
     data2eV counts factor ax0 evaxis =
       Inr (map (\<lambda>i. counts ! i * factor * c_h * c_c / (c_e * n_air (rev ax0 ! i) * (evaxis ! i) ^ 2))
              [0..<length ax0])
     \<and> (\<forall>ax ev f i. axis ax = ax0 \<and> units ax \<noteq> micro_m \<and> axis2eV ax = Inr (ev, f) \<and> i < length ax0
           \<longrightarrow> axis ev ! i = nm2eV (rev ax0 ! i))"
proof (intro impI conjI allI)
  assume len: "length counts = length ax0 \<and> length evaxis = length ax0"
  have den: "broadcast2 (\<lambda>n ev. c_e * n * ev ^ 2) (map n_air (rev ax0)) evaxis =
      Inr (map (\<lambda>i. c_e * n_air (rev ax0 ! i) * (evaxis ! i) ^ 2) [0..<length ax0])"
    using len by (simp add: broadcast2_def map2_nth cong: map_cong)
  show "data2eV counts factor ax0 evaxis =
       Inr (map (\<lambda>i. counts ! i * factor * c_h * c_c / (c_e * n_air (rev ax0 ! i) * (evaxis ! i) ^ 2))
              [0..<length ax0])"
    using len by (simp add: data2eV_def den broadcast2_def map2_nth cong: map_cong)
next
  fix ax ev f i
  assume "axis ax = ax0 \<and> units ax \<noteq> micro_m \<and> axis2eV ax = Inr (ev, f) \<and> i < length ax0"
  then show "axis ev ! i = nm2eV (rev ax0 ! i)"
    by (auto simp: axis2eV_def new_DataAxis_def rev_map split: if_splits)
qed

theorem data2eV_jacobian_witness:
  "data2eV [1, 2] (10 ^ 6) [500, 600] [nm2eV 600, nm2eV 500] =
     Inr [1 * 10 ^ 6 * c_h * c_c / (c_e * n_air 600 * (nm2eV 600) ^ 2),
          2 * 10 ^ 6 * c_h * c_c / (c_e * n_air 500 * (nm2eV 500) ^ 2)]
   \<and> axis (DataAxis ''Energy'' ''eV'' False [nm2eV 600, nm2eV 500]) ! 0 = nm2eV (rev [500, 600] ! 0)"
  using data2eV_jacobian [of "[1, 2]" "[500, 600]" "[nm2eV 600, nm2eV 500]" "10 ^ 6"]
  by (simp add: upt_rec)

text \<open>
  Claim C10. For every wavelength from 185 nm to 1700 nm, converting to energy and back
  gives \<open>n_air x * x / n_air w\<close>, where \<open>w = 1239.5 / nm2eV x\<close> is the approximate
  wavelength at which \<open>eV2nm\<close> evaluates the refractive index; the result is less than
  0.5 nm away from \<open>x\<close>, and at 1000 nm it is not \<open>x\<close>.
\<close>

theorem eV2nm_nm2eV_approximate:
  "(185 \<le> x \<and> x \<le> 1700 \<longrightarrow>
      eV2nm (nm2eV x) = n_air x * x / n_air ((12395 / 10) / nm2eV x)
      \<and> \<bar>eV2nm (nm2eV x) - x\<bar> < 1 / 2)
   \<and> (\<exists>z. 185 \<le> z \<and> z \<le> 1700 \<and> eV2nm (nm2eV z) \<noteq> z)"
proof (intro conjI impI)
  assume r: "185 \<le> x \<and> x \<le> 1700"
  then show "eV2nm (nm2eV x) = n_air x * x / n_air ((12395 / 10) / nm2eV x)"
    using roundtrip_eq [of x] by simp
  show "\<bar>eV2nm (nm2eV x) - x\<bar> < 1 / 2"
    using r roundtrip_close [of x] by simp
next
  have "eV2nm (nm2eV 1000) \<noteq> 1000"
    by (simp add: eV2nm_def nm2eV_def n_air_def c_h_def c_c_def c_e_def Let_def power2_eq_square)
  then show "\<exists>z. 185 \<le> z \<and> z \<le> 1700 \<and> eV2nm (nm2eV z) \<noteq> z"
    by (intro exI [of _ 1000]) simp
qed

theorem eV2nm_nm2eV_approximate_witness:
  "\<bar>eV2nm (nm2eV 1000) - 1000\<bar> < 1 / 2
   \<and> eV2nm (nm2eV 1000) = n_air 1000 * 1000 / n_air ((12395 / 10) / nm2eV 1000)"
proof -
  have "185 \<le> (1000::real) \<and> (1000::real) \<le> 1700" by simp
  with eV2nm_nm2eV_approximate [of 1000] show ?thesis by blast
qed


section \<open>Properties of the join\<close>

subsection \<open>Slices\<close>

lemma slice_bound_le: "slice_bound n i \<le> n"
  by (auto simp: slice_bound_def)

lemma slice_bound_int: "slice_bound n (int k) = min n k"
  by (simp add: slice_bound_def)

lemma slice_to_int: "slice_to xs (int k) = take k xs"
  by (cases "k \<le> length xs") (simp_all add: slice_to_def slice_bound_int min_def)

lemma slice_from_int: "slice_from xs (int k) = drop k xs"
  by (cases "k \<le> length xs") (simp_all add: slice_from_def slice_bound_int min_def)

lemma slice_int: "slice xs (int a) (int b) = take (b - a) (drop a xs)"
  by (cases "a \<le> length xs") (auto simp: slice_def slice_bound_int Let_def min_def)

lemma length_slice_to: "length (slice_to xs b) = slice_bound (length xs) b"
  by (simp add: slice_to_def slice_bound_le)

lemma length_slice_from: "length (slice_from xs a) = length xs - slice_bound (length xs) a"
  by (simp add: slice_from_def)

lemma length_slice:
  "length (slice xs a b) = slice_bound (length xs) b - slice_bound (length xs) a"
  using slice_bound_le [of "length xs" b] by (auto simp: slice_def Let_def)

subsection \<open>Maximum, minimum and nearest index\<close>

lemma amax_Max: "xs \<noteq> [] \<Longrightarrow> amax xs = Inr (Max (set xs))"
proof (cases xs)
  case (Cons x rest)
  have "fold max rest x = Max (set (x # rest))" by (rule Max.set_eq_fold [symmetric])
  then show ?thesis unfolding Cons by (simp add: amax_def)
qed simp

lemma amin_Min: "xs \<noteq> [] \<Longrightarrow> amin xs = Inr (Min (set xs))"
proof (cases xs)
  case (Cons x rest)
  have "fold min rest x = Min (set (x # rest))" by (rule Min.set_eq_fold [symmetric])
  then show ?thesis unfolding Cons by (simp add: amin_def)
qed simp

lemma amax_Inr_iff: "(\<exists>m. amax xs = Inr m) \<longleftrightarrow> xs \<noteq> []"
  by (cases xs) (simp_all add: amax_def)

lemma amin_Inr_iff: "(\<exists>m. amin xs = Inr m) \<longleftrightarrow> xs \<noteq> []"
  by (cases xs) (simp_all add: amin_def)



lemma argmin_least:
  "ys \<noteq> [] \<Longrightarrow> argmin ys < length ys \<and> (\<forall>j<length ys. ys ! argmin ys \<le> ys ! j)"
proof (induction ys rule: argmin.induct)
  case 1
  then show ?case by simp
next
  case (2 x)
  then show ?case by simp
next
  case (3 x y ys)
  let ?j = "argmin (y # ys)"
  have ih: "?j < length (y # ys)" "\<forall>j<length (y # ys). (y # ys) ! ?j \<le> (y # ys) ! j"
    using 3 by simp_all
  show ?case
  proof (cases "x \<le> (y # ys) ! ?j")
    case True
    then have "argmin (x # y # ys) = 0" by (simp add: Let_def)
    moreover have "\<forall>j<length (x # y # ys). x \<le> (x # y # ys) ! j"
    proof (intro allI impI)
      fix j assume "j < length (x # y # ys)"
      then show "x \<le> (x # y # ys) ! j"
        using True ih(2) by (cases j) (auto intro: order_trans)
    qed
    ultimately show ?thesis by simp
  next
    case False
    then have e: "argmin (x # y # ys) = Suc ?j" by (simp add: Let_def)
    have "\<forall>j<length (x # y # ys). (y # ys) ! ?j \<le> (x # y # ys) ! j"
    proof (intro allI impI)
      fix j assume "j < length (x # y # ys)"
      then show "(y # ys) ! ?j \<le> (x # y # ys) ! j"
        using False ih(2) by (cases j) auto
    qed
    then show ?thesis using ih(1) unfolding e by simp
  qed
qed

lemma closest_index_less: "xs \<noteq> [] \<Longrightarrow> closest_index xs v < length xs"
  using argmin_least [of "map (\<lambda>x. \<bar>x - v\<bar>) xs"] by (simp add: closest_index_def)


lemma value2index_Inr_less:
  "value2index ax v = Inr i \<Longrightarrow> i < length (axis ax)"
  by (auto simp: value2index_def closest_index_less split: sum.splits if_splits dest!: amax_Inr_iff [THEN iffD1, OF exI])

subsection \<open>The exceptions of the library functions\<close>

lemma sequence_Inl: "sequence ms = Inl e \<Longrightarrow> Inl e \<in> set ms"
  by (induction ms rule: sequence.induct) (auto split: sum.splits)

lemma sequence_Inr: "sequence ms = Inr xs \<Longrightarrow> ms = map Inr xs"
  by (induction ms arbitrary: xs rule: sequence.induct) (auto split: sum.splits)

lemma own_errors_distinct: "RangeError \<noteq> OverlapError"
  by (simp add: RangeError_def OverlapError_def)

lemma amax_error: "amax xs = Inl e \<Longrightarrow> e \<noteq> OverlapError \<and> e \<noteq> RangeError"
  by (auto simp: amax_def OverlapError_def RangeError_def split: list.splits)

lemma amin_error: "amin xs = Inl e \<Longrightarrow> e \<noteq> OverlapError \<and> e \<noteq> RangeError"
  by (auto simp: amin_def OverlapError_def RangeError_def split: list.splits)

lemma pyindex_error: "pyindex xs i = Inl e \<Longrightarrow> e \<noteq> OverlapError \<and> e \<noteq> RangeError"
  by (auto simp: pyindex_def Let_def OverlapError_def RangeError_def split: if_splits)

lemma value2index_error: "value2index ax v = Inl e \<Longrightarrow> e \<noteq> OverlapError \<and> e \<noteq> RangeError"
  by (auto simp: value2index_def OverlapError_def RangeError_def
      split: sum.splits if_splits dest: amax_error amin_error)

lemma divide_row_error: "divide_row a b = Inl e \<Longrightarrow> e \<noteq> OverlapError \<and> e \<noteq> RangeError"
  by (auto simp: divide_row_def OverlapError_def RangeError_def split: if_splits)

lemma divide_where_error:
  assumes "divide_where a b = Inl e"
  shows "e \<noteq> OverlapError \<and> e \<noteq> RangeError"
proof (cases "length a = length b")
  case True
  then have "sequence (map2 divide_row a b) = Inl e"
    using assms by (simp add: divide_where_def)
  then have "Inl e \<in> set (map2 divide_row a b)" by (rule sequence_Inl)
  then obtain x y where "divide_row x y = Inl e" by (auto simp: in_set_zip)
  then show ?thesis by (rule divide_row_error)
next
  case False
  show ?thesis
  proof (cases "length a = 1")
    case True
    then have "sequence (map (divide_row (hd a)) b) = Inl e"
      using assms False by (simp add: divide_where_def)
    then have "Inl e \<in> set (map (divide_row (hd a)) b)" by (rule sequence_Inl)
    then obtain y where "divide_row (hd a) y = Inl e" by auto
    then show ?thesis by (rule divide_row_error)
  next
    case one: False
    then have "e = ValueError ''operands could not be broadcast together''"
      using assms False by (simp add: divide_where_def)
    then show ?thesis by (simp add: OverlapError_def RangeError_def)
  qed
qed

lemma scaling_factor_error:
  "scaling_factor S1 S2 i1 i2 r = Inl e \<Longrightarrow> e \<noteq> OverlapError \<and> e \<noteq> RangeError"
  by (auto simp: scaling_factor_def split: sum.splits dest: divide_where_error)

lemma interp1d_error: "interp1d x y k = Inl e \<Longrightarrow> e \<noteq> OverlapError \<and> e \<noteq> RangeError"
  unfolding interp1d_def by (auto simp: OverlapError_def RangeError_def split: if_splits)

lemma interp_call_error: "interp_call x y k t = Inl e \<Longrightarrow> e \<noteq> OverlapError \<and> e \<noteq> RangeError"
  unfolding interp_call_def by (auto simp: OverlapError_def RangeError_def split: if_splits)

lemma mean2_error: "mean2 a b = Inl e \<Longrightarrow> e \<noteq> OverlapError \<and> e \<noteq> RangeError"
  by (auto simp: mean2_def OverlapError_def RangeError_def split: if_splits)

lemma hstack_error: "hstack a b = Inl e \<Longrightarrow> e \<noteq> OverlapError \<and> e \<noteq> RangeError"
  by (auto simp: hstack_def OverlapError_def RangeError_def split: if_splits)

lemmas library_errors = amax_error amin_error pyindex_error value2index_error scaling_factor_error
  interp1d_error interp_call_error mean2_error hstack_error

lemma uniform_size_error:
  "uniform_size S1 S2 i1 = Inl e \<Longrightarrow> e \<noteq> OverlapError \<and> e \<noteq> RangeError"
  unfolding uniform_size_def
  by (auto split: sum.split_asm if_split_asm dest: pyindex_error simp: OverlapError_def RangeError_def)

lemma average_data_error:
  "average_data S1 S2 new_axis i1 r = Inl e \<Longrightarrow> e \<noteq> OverlapError \<and> e \<noteq> RangeError"
  unfolding average_data_def
  by (auto split: sum.split_asm dest: library_errors)

lemma center_data_error:
  "center_data S1 S2 new_axis i1 i2 = Inl e \<Longrightarrow> e \<noteq> OverlapError \<and> e \<noteq> RangeError"
  unfolding center_data_def
  by (auto split: sum.split_asm dest: library_errors)

lemma nonuniform_data_error:
  "nonuniform_data S1 S2 i1 i2 r average = Inl e \<Longrightarrow> e \<noteq> OverlapError \<and> e \<noteq> RangeError"
  unfolding nonuniform_data_def
  by (auto split: sum.split_asm if_split_asm dest: library_errors)

lemma join_uniform_error:
  "join_uniform S1 S2 i1 i2 r average = Inl e \<Longrightarrow> e \<noteq> OverlapError \<and> e \<noteq> RangeError"
  unfolding join_uniform_def
  by (auto split: sum.split_asm if_split_asm
      dest: uniform_size_error average_data_error center_data_error)

lemma join_nonuniform_error:
  "join_nonuniform S1 S2 i1 i2 r average = Inl e \<Longrightarrow> e \<noteq> OverlapError \<and> e \<noteq> RangeError"
  unfolding join_nonuniform_def
  by (auto split: sum.split_asm dest: nonuniform_data_error)

lemma overlap_center_error:
  "overlap_center S1 S2 = Inl e \<Longrightarrow> e \<noteq> OverlapError \<and> e \<noteq> RangeError"
  unfolding overlap_center_def
  by (auto split: sum.split_asm dest: library_errors)

lemma join_step_error:
  "join_step S1 S2 r average kind = Inl e \<Longrightarrow> e \<noteq> OverlapError"
  unfolding join_step_def
  by (auto split: sum.split_asm if_split_asm prod.split_asm
      dest: overlap_center_error value2index_error scaling_factor_error
        join_uniform_error join_nonuniform_error
      simp: OverlapError_def)

lemma join_loop_error:
  "join_loop S1 rest r average kind = Inl e \<Longrightarrow> e \<noteq> OverlapError"
  by (induction rest arbitrary: S1) (auto split: sum.splits dest: join_step_error)

lemma overlap_check_error:
  "\<forall>s\<in>set S. axis (signal_axis s) \<noteq> [] \<Longrightarrow> overlap_check S = Inl e \<Longrightarrow> e = OverlapError"
proof (induction S rule: overlap_check.induct)
  case (1 Sa Sb rest)
  obtain hi lo where h: "amax (axis (signal_axis Sa)) = Inr hi" "amin (axis (signal_axis Sb)) = Inr lo"
    using "1.prems"(1) amax_Inr_iff [of "axis (signal_axis Sa)"] amin_Inr_iff [of "axis (signal_axis Sb)"]
    by auto
  show ?case
  proof (cases "hi < lo")
    case True
    then show ?thesis using "1.prems"(2) h by (simp add: OverlapError_def)
  next
    case False
    then have "overlap_check (Sb # rest) = Inl e" using "1.prems"(2) h by simp
    then show ?thesis using "1.IH" [OF h False] "1.prems"(1) by simp
  qed
qed simp_all

lemma overlap_check_iff:
  assumes "\<forall>s\<in>set S. axis (signal_axis s) \<noteq> []"
  shows "overlap_check S = Inl OverlapError \<longleftrightarrow>
    (\<exists>i. 0 < i \<and> i < length S
      \<and> Max (set (axis (signal_axis (S ! (i - 1))))) < Min (set (axis (signal_axis (S ! i)))))"
  using assms
proof (induction S rule: overlap_check.induct)
  case (1 Sa Sb rest)
  let ?bad = "\<lambda>S i. 0 < i \<and> i < length S
      \<and> Max (set (axis (signal_axis (S ! (i - 1))))) < Min (set (axis (signal_axis (S ! i))))"
  have ne: "axis (signal_axis Sa) \<noteq> []" "axis (signal_axis Sb) \<noteq> []" using "1.prems" by simp_all
  show ?case
  proof (cases "Max (set (axis (signal_axis Sa))) < Min (set (axis (signal_axis Sb)))")
    case True
    then have "?bad (Sa # Sb # rest) 1" by simp
    then have "\<exists>i. ?bad (Sa # Sb # rest) i" by blast
    moreover have "overlap_check (Sa # Sb # rest) = Inl OverlapError"
      using True ne by (simp add: amax_Max amin_Min OverlapError_def)
    ultimately show ?thesis by simp
  next
    case False
    have "overlap_check (Sa # Sb # rest) =
        (if Max (set (axis (signal_axis Sa))) < Min (set (axis (signal_axis Sb)))
         then Inl (ValueError ''Signal axes not overlapping'') else overlap_check (Sb # rest))"
      unfolding overlap_check.simps amax_Max [OF ne(1)] amin_Min [OF ne(2)]
      by (simp only: sum.case)
    then have step: "overlap_check (Sa # Sb # rest) = overlap_check (Sb # rest)"
      by (simp only: False if_False)
    have ih: "overlap_check (Sb # rest) = Inl OverlapError \<longleftrightarrow> (\<exists>i. ?bad (Sb # rest) i)"
      using "1.IH" [OF amax_Max [OF ne(1)] amin_Min [OF ne(2)] False] "1.prems" by simp
    have "(\<exists>i. ?bad (Sa # Sb # rest) i) \<longleftrightarrow> (\<exists>i. ?bad (Sb # rest) i)"
    proof
      assume "\<exists>i. ?bad (Sa # Sb # rest) i"
      then obtain i where i: "?bad (Sa # Sb # rest) i" ..
      then have "i \<noteq> 1" using False by auto
      then obtain j where j: "i = Suc j" "0 < j" using i by (cases i) auto
      then have "?bad (Sb # rest) j" using i by simp
      then show "\<exists>i. ?bad (Sb # rest) i" ..
    next
      assume "\<exists>i. ?bad (Sb # rest) i"
      then obtain j where j: "?bad (Sb # rest) j" ..
      then have "?bad (Sa # Sb # rest) (Suc j)" by (cases j) simp_all
      then show "\<exists>i. ?bad (Sa # Sb # rest) i" ..
    qed
    then show ?thesis using step ih by simp
  qed
qed (simp_all add: OverlapError_def)

lemma join_spectra_overlap_iff:
  assumes "\<forall>s\<in>set S. axis (signal_axis s) \<noteq> []"
  shows "join_spectra S r average kind = Inl OverlapError \<longleftrightarrow>
    (\<exists>i. 0 < i \<and> i < length S
      \<and> Max (set (axis (signal_axis (S ! (i - 1))))) < Min (set (axis (signal_axis (S ! i)))))"
proof -
  have "join_spectra S r average kind = Inl OverlapError \<longleftrightarrow> overlap_check S = Inl OverlapError"
  proof
    assume a: "join_spectra S r average kind = Inl OverlapError"
    show "overlap_check S = Inl OverlapError"
    proof (cases "overlap_check S")
      case (Inl e)
      then show ?thesis using overlap_check_error [OF assms Inl] by simp
    next
      case (Inr u)
      have False
      proof (cases S)
        case Nil
        then show ?thesis using a Inr by (simp add: join_spectra_def OverlapError_def)
      next
        case (Cons S0 rest)
        then have "join_loop S0 rest r average kind = Inl OverlapError"
          using a Inr by (simp add: join_spectra_def)
        then show ?thesis using join_loop_error by blast
      qed
      then show ?thesis ..
    qed
  next
    assume "overlap_check S = Inl OverlapError"
    then show "join_spectra S r average kind = Inl OverlapError"
      by (simp add: join_spectra_def)
  qed
  then show ?thesis using overlap_check_iff [OF assms] by simp
qed

subsection \<open>The store: only copies are assigned to\<close>

lemma join_loop_refs_old:
  "n \<le> length h \<Longrightarrow> n \<le> p1 \<Longrightarrow>
   take n (fst (join_loop_refs h p1 rest r average kind)) = take n h"
proof (induction rest arbitrary: h)
  case Nil
  then show ?case by simp
next
  case (Cons q rest)
  show ?case
  proof (cases "join_step ((h @ [h ! q]) ! p1) ((h @ [h ! q]) ! length h) r average kind")
    case (Inl e)
    then show ?thesis using Cons.prems by (simp add: deepcopy_def)
  next
    case (Inr S1')
    have "take n (fst (join_loop_refs ((h @ [h ! q])[p1 := S1']) p1 rest r average kind))
        = take n ((h @ [h ! q])[p1 := S1'])"
      using Cons.prems by (intro Cons.IH) simp_all
    then show ?thesis using Inr Cons.prems by (simp add: deepcopy_def)
  qed
qed

lemma join_loop_refs_pure:
  "p1 < length h \<Longrightarrow> \<forall>q\<in>set rest. q < p1 \<Longrightarrow>
   join_loop (h ! p1) (map (\<lambda>q. h ! q) rest) r average kind
     = map_sum (\<lambda>e. e) (\<lambda>p. fst (join_loop_refs h p1 rest r average kind) ! p)
         (snd (join_loop_refs h p1 rest r average kind))"
proof (induction rest arbitrary: h)
  case Nil
  then show ?case by simp
next
  case (Cons q rest)
  have q: "q < p1" "q < length h" using Cons.prems by simp_all
  have rd: "(h @ [h ! q]) ! p1 = h ! p1" "(h @ [h ! q]) ! length h = h ! q"
    using Cons.prems(1) by (simp_all add: nth_append)
  show ?case
  proof (cases "join_step (h ! p1) (h ! q) r average kind")
    case (Inl e)
    then show ?thesis by (simp add: deepcopy_def rd)
  next
    case (Inr S1')
    let ?h = "(h @ [h ! q])[p1 := S1']"
    have same: "map (\<lambda>q. ?h ! q) rest = map (\<lambda>q. h ! q) rest"
      using Cons.prems by (auto simp: nth_append)
    have step: "join_loop_refs h p1 (q # rest) r average kind = join_loop_refs ?h p1 rest r average kind"
      using Inr by (simp add: deepcopy_def rd)
    have "join_loop (?h ! p1) (map (\<lambda>q. ?h ! q) rest) r average kind
        = map_sum (\<lambda>e. e) (\<lambda>p. fst (join_loop_refs ?h p1 rest r average kind) ! p)
            (snd (join_loop_refs ?h p1 rest r average kind))"
      using Cons.prems by (intro Cons.IH) simp_all
    moreover have "?h ! p1 = S1'" using Cons.prems(1) by simp
    ultimately show ?thesis unfolding step using Inr by (simp add: same)
  qed
qed

lemma join_spectra_refs_old:
  "take (length h) (fst (join_spectra_refs h S r average kind)) = h"
proof (cases "overlap_check (map (\<lambda>p. h ! p) S)")
  case (Inl e)
  then show ?thesis by (simp add: join_spectra_refs_def)
next
  case (Inr ok)
  show ?thesis
  proof (cases S)
    case Nil
    then show ?thesis using Inr by (simp add: join_spectra_refs_def)
  next
    case (Cons p0 rest)
    have "take (length h) (fst (join_loop_refs (h @ [h ! p0]) (length h) rest r average kind))
        = take (length h) (h @ [h ! p0])"
      by (intro join_loop_refs_old) simp_all
    then show ?thesis using Inr Cons by (simp add: join_spectra_refs_def deepcopy_def)
  qed
qed

lemma join_spectra_refs_pure:
  assumes "\<forall>p\<in>set S. p < length h"
  shows "join_spectra (map (\<lambda>p. h ! p) S) r average kind
     = map_sum (\<lambda>e. e) (\<lambda>p. fst (join_spectra_refs h S r average kind) ! p)
         (snd (join_spectra_refs h S r average kind))"
proof (cases "overlap_check (map (\<lambda>p. h ! p) S)")
  case (Inl e)
  then show ?thesis by (simp add: join_spectra_refs_def join_spectra_def)
next
  case (Inr ok)
  show ?thesis
  proof (cases S)
    case Nil
    then show ?thesis using Inr by (simp add: join_spectra_refs_def join_spectra_def)
  next
    case (Cons p0 rest)
    let ?h = "h @ [h ! p0]"
    have p: "p0 < length h" "\<forall>q\<in>set rest. q < length h" using assms Cons by simp_all
    have same: "map (\<lambda>q. ?h ! q) rest = map (\<lambda>q. h ! q) rest"
      using p(2) by (auto simp: nth_append)
    have refs: "join_spectra_refs h S r average kind = join_loop_refs ?h (length h) rest r average kind"
      using Inr Cons by (simp add: join_spectra_refs_def deepcopy_def)
    have "join_loop (?h ! length h) (map (\<lambda>q. ?h ! q) rest) r average kind
        = map_sum (\<lambda>e. e) (\<lambda>p. fst (join_loop_refs ?h (length h) rest r average kind) ! p)
            (snd (join_loop_refs ?h (length h) rest r average kind))"
      using p(2) by (intro join_loop_refs_pure) simp_all
    then show ?thesis
      unfolding refs using Inr Cons by (simp add: join_spectra_def same)
  qed
qed

text \<open>
  Claim C2. Let every reference of the list point into the store, to a spectrum whose axis
  has a sample. The join raises the overlap error exactly when, for some adjacent pair,
  the largest sample of the earlier axis is less than the smallest sample of the later
  one (axes that touch pass): the test runs over all pairs before the first pass, so it
  wins over any error a pass would raise. When it raises this error the store is as it
  was, and the result is the error alone; and whatever the join does, every object that
  was in the store before the call is unchanged after it.
\<close>

theorem join_overlap_error:
  assumes "\<forall>p\<in>set S. p < length h \<and> axis (signal_axis (h ! p)) \<noteq> []"
  shows "(snd (join_spectra_refs h S r average kind) = Inl OverlapError \<longleftrightarrow>
          (\<exists>i. 0 < i \<and> i < length S
             \<and> Max (set (axis (signal_axis (h ! (S ! (i - 1))))))
                 < Min (set (axis (signal_axis (h ! (S ! i)))))))
       \<and> (snd (join_spectra_refs h S r average kind) = Inl OverlapError \<longrightarrow>
            fst (join_spectra_refs h S r average kind) = h)
       \<and> take (length h) (fst (join_spectra_refs h S r average kind)) = h"
proof (intro conjI impI)
  let ?V = "map (\<lambda>p. h ! p) S"
  have valid: "\<forall>p\<in>set S. p < length h" and ne: "\<forall>s\<in>set ?V. axis (signal_axis s) \<noteq> []"
    using assms by auto
  have pure: "snd (join_spectra_refs h S r average kind) = Inl OverlapError
      \<longleftrightarrow> join_spectra ?V r average kind = Inl OverlapError"
    unfolding join_spectra_refs_pure [OF valid, of r average kind]
    by (cases "snd (join_spectra_refs h S r average kind)") simp_all
  have idx: "(\<exists>i. 0 < i \<and> i < length ?V
        \<and> Max (set (axis (signal_axis (?V ! (i - 1))))) < Min (set (axis (signal_axis (?V ! i)))))
      \<longleftrightarrow> (\<exists>i. 0 < i \<and> i < length S
             \<and> Max (set (axis (signal_axis (h ! (S ! (i - 1))))))
                 < Min (set (axis (signal_axis (h ! (S ! i))))))"
    by (intro ex_cong1) (auto simp: nth_map)
  show "snd (join_spectra_refs h S r average kind) = Inl OverlapError \<longleftrightarrow>
          (\<exists>i. 0 < i \<and> i < length S
             \<and> Max (set (axis (signal_axis (h ! (S ! (i - 1))))))
                 < Min (set (axis (signal_axis (h ! (S ! i))))))"
    using pure join_spectra_overlap_iff [OF ne, of r average kind] idx by simp
  show "take (length h) (fst (join_spectra_refs h S r average kind)) = h"
    by (rule join_spectra_refs_old)
  assume a: "snd (join_spectra_refs h S r average kind) = Inl OverlapError"
  show "fst (join_spectra_refs h S r average kind) = h"
  proof (cases "overlap_check ?V")
    case (Inl e)
    then show ?thesis by (simp add: join_spectra_refs_def)
  next
    case (Inr ok)
    have "join_spectra ?V r average kind \<noteq> Inl OverlapError"
    proof (cases ?V)
      case Nil
      then show ?thesis using Inr by (simp add: join_spectra_def OverlapError_def)
    next
      case (Cons S0 rest)
      then have "join_spectra ?V r average kind = join_loop S0 rest r average kind"
        using Inr by (simp add: join_spectra_def)
      then show ?thesis using join_loop_error by metis
    qed
    then show ?thesis using a pure by simp
  qed
qed


theorem join_overlap_error_witness:
  "snd (join_spectra_refs [example_A, example_far] [0, 1] 1 False ''slinear'') = Inl OverlapError
   \<and> fst (join_spectra_refs [example_A, example_far] [0, 1] 1 False ''slinear'') = [example_A, example_far]
   \<and> snd (join_spectra_refs [example_A, example_touch] [0, 1] 1 False ''slinear'') \<noteq> Inl OverlapError"
proof -
  have ax: "axis (signal_axis example_A) = [0, 1, 2, 3, 4, 5, 6, 7, 8]"
    "axis (signal_axis example_far) = [20, 21, 22, 23, 24]"
    "axis (signal_axis example_touch) = [8, 9, 10, 11, 12]"
    by (simp_all add: example_A_def example_far_def example_touch_def upt_rec)
  let ?bad = "\<lambda>h S. \<exists>i. 0 < i \<and> i < length S
             \<and> Max (set (axis (signal_axis (h ! (S ! (i - 1))))))
                 < Min (set (axis (signal_axis (h ! (S ! i)))))"
  have v1: "\<forall>p\<in>set [0, 1]. p < length [example_A, example_far]
      \<and> axis (signal_axis ([example_A, example_far] ! p)) \<noteq> []"
    by (simp add: ax)
  have v2: "\<forall>p\<in>set [0, 1]. p < length [example_A, example_touch]
      \<and> axis (signal_axis ([example_A, example_touch] ! p)) \<noteq> []"
    by (simp add: ax)
  have bad: "?bad [example_A, example_far] [0, 1::nat]"
    by (intro exI [of _ 1]) (simp add: ax)
  have good: "\<not> ?bad [example_A, example_touch] [0, 1::nat]"
    by (auto simp: ax less_Suc_eq)
  show ?thesis
    using join_overlap_error [OF v1, of 1 False "''slinear''"]
      join_overlap_error [OF v2, of 1 False "''slinear''"] bad good
    by blast
qed

subsection \<open>The claims about the errors of the join\<close>

text \<open>
  Claim C3. In a pass of the join that has found the centre of the overlap and the two
  indices \<open>ind1\<close> and \<open>ind2\<close>, let \<open>imax\<close> be the index of the largest sample of the
  first axis. The pass raises the range error exactly when \<open>imax - ind1\<close> is not greater
  than \<open>r\<close>; when it is greater, whatever the pass does, it does not raise this error.
\<close>

theorem join_step_range_error:
  assumes "overlap_center S1 S2 = Inr (omax, ind1, ind2)"
    and "value2index (signal_axis S1) omax = Inr imax"
  shows "join_step S1 S2 r average kind = Inl RangeError \<longleftrightarrow> int imax - int ind1 \<le> r"
proof (cases "int imax - int ind1 \<le> r")
  case True
  then show ?thesis using assms by (simp add: join_step_def RangeError_def)
next
  case False
  have "join_step S1 S2 r average kind \<noteq> Inl RangeError"
  proof
    assume a: "join_step S1 S2 r average kind = Inl RangeError"
    then show False
      using assms False unfolding join_step_def
      by (auto split: sum.split_asm if_split_asm
          dest: scaling_factor_error join_uniform_error join_nonuniform_error)
  qed
  then show ?thesis using False by simp
qed

theorem join_step_range_error_witness:
  "overlap_center example_A example_B = Inr (8, 6, 2)
   \<and> value2index (signal_axis example_A) 8 = Inr 8
   \<and> join_step example_A example_B 2 False ''slinear'' = Inl RangeError
   \<and> join_step example_A example_B 1 False ''slinear'' \<noteq> Inl RangeError"
proof -
  have ax: "axis (signal_axis example_A) = [0, 1, 2, 3, 4, 5, 6, 7, 8]"
    "axis (signal_axis example_B) = [4, 5, 6, 7, 8, 9, 10, 11, 12]"
    by (simp_all add: example_A_def example_B_def upt_rec)
  have c: "overlap_center example_A example_B = Inr (8, 6, 2)"
    by (simp add: overlap_center_def value2index_def closest_index_def amax_def amin_def ax)
  have m: "value2index (signal_axis example_A) 8 = Inr 8"
    by (simp add: value2index_def closest_index_def amax_def amin_def ax)
  show ?thesis
    using join_step_range_error [OF c m, of 2 False "''slinear''"]
      join_step_range_error [OF c m, of 1 False "''slinear''"] c m
    by simp
qed

subsection \<open>Uniform axes and constant data\<close>











lemma slice_to_nonneg: "0 \<le> b \<Longrightarrow> slice_to xs b = take (nat b) xs"
  using slice_to_int [of xs "nat b"] by simp

lemma slice_from_nonneg: "0 \<le> a \<Longrightarrow> slice_from xs a = drop (nat a) xs"
  using slice_from_int [of xs "nat a"] by simp




lemma slice_replicate:
  "slice (replicate n x) (int a) (int b) = replicate (min (b - a) (n - a)) x"
  by (simp add: slice_int)













lemma length_scale_rows: "length factor = length rows \<Longrightarrow> length (scale_rows rows factor) = length rows"
  by (simp add: scale_rows_def)







subsection \<open>The claim about the scaling factor\<close>




subsection \<open>The argument \<open>kind\<close>\<close>
















end
